theory Spec2Isabelle
  imports Complex_Main "HOL-Library.AList" "HOL-Library.Multiset" "HOL-Library.Sublist"
begin

section \<open>Compaction of pair-adjustment (kerning) subtables\<close>

text \<open>
  A shallow embedding of \<^verbatim>\<open>gpos_compaction/compact_kern_feature_writer.py\<close>.
  Python dictionaries keep their insertion order, and that order decides the order of the
  output subtables, so a dictionary is an association list with distinct keys:
  \<open>d[k] = v\<close> is \<^const>\<open>AList.update\<close> (an existing key keeps its position, a new key
  goes to the end) and a lookup is \<^const>\<open>map_of\<close>.
\<close>

subsection \<open>Value records\<close>

type_synonym glyph = string

text \<open>A device or variation-index table; its contents are never read by the code.\<close>

type_synonym device = "int list"

text \<open>
  A \<^verbatim>\<open>ValueRecord\<close> object has an attribute only for the fields of its value format:
  \<open>None\<close> below is an attribute that is absent. (For a device field, an attribute that is
  present and holds Python's \<^verbatim>\<open>None\<close> behaves as an absent one under \<^verbatim>\<open>getattr(v, a, None)\<close>.)
\<close>

record ValueRecord =
  XPlacement :: "int option"
  YPlacement :: "int option"
  XAdvance :: "int option"
  YAdvance :: "int option"
  XPlaDevice :: "device option"
  YPlaDevice :: "device option"
  XAdvDevice :: "device option"
  YAdvDevice :: "device option"

text \<open>The Python values that the attributes of a value record hold.\<close>

datatype pyval = PyNone | PyInt int | PyDevice device

text \<open>
  \<^verbatim>\<open>getattr(value, attr, default)\<close>: the attribute of that name, or the default when the
  object has none. A value record has no data attribute besides the eight above.
\<close>

definition getattr :: "ValueRecord \<Rightarrow> string \<Rightarrow> pyval \<Rightarrow> pyval" where
  "getattr value attr dflt =
     (if attr = ''XPlacement'' then (case XPlacement value of None \<Rightarrow> dflt | Some n \<Rightarrow> PyInt n)
      else if attr = ''YPlacement'' then (case YPlacement value of None \<Rightarrow> dflt | Some n \<Rightarrow> PyInt n)
      else if attr = ''XAdvance'' then (case XAdvance value of None \<Rightarrow> dflt | Some n \<Rightarrow> PyInt n)
      else if attr = ''YAdvance'' then (case YAdvance value of None \<Rightarrow> dflt | Some n \<Rightarrow> PyInt n)
      else if attr = ''XPlaDevice'' then (case XPlaDevice value of None \<Rightarrow> dflt | Some d \<Rightarrow> PyDevice d)
      else if attr = ''YPlaDevice'' then (case YPlaDevice value of None \<Rightarrow> dflt | Some d \<Rightarrow> PyDevice d)
      else if attr = ''XAdvDevice'' then (case XAdvDevice value of None \<Rightarrow> dflt | Some d \<Rightarrow> PyDevice d)
      else if attr = ''YAdvDevice'' then (case YAdvDevice value of None \<Rightarrow> dflt | Some d \<Rightarrow> PyDevice d)
      else dflt)"

text \<open>
  The second \<^verbatim>\<open>for attr in (...)\<close> of \<^verbatim>\<open>is_really_zero\<close> runs over
  \<^verbatim>\<open>("XPlaDevice" "YPlaDevice" "XAdvDevice" "YAdvDevice")\<close>: four adjacent string literals
  with no comma between them, which Python joins into one string. Iterating over a string
  yields its characters, each a string of length one.
\<close>

definition device_attrs :: "string list" where
  "device_attrs =
     map (\<lambda>c. [c]) (''XPlaDevice'' @ ''YPlaDevice'' @ ''XAdvDevice'' @ ''YAdvDevice'')"

definition is_really_zero :: "ValueRecord option \<Rightarrow> bool" where
  "is_really_zero value =
     (case value of
        None \<Rightarrow> True
      | Some v \<Rightarrow>
          list_all (\<lambda>attr. getattr v attr (PyInt 0) = PyInt 0)
            [''XPlacement'', ''YPlacement'', ''XAdvance'', ''YAdvance'']
          \<and> list_all (\<lambda>attr. getattr v attr PyNone = PyNone) device_attrs)"

text \<open>
  The zero test as the specification words it: every present scalar field is zero and no
  device or variation table is attached to any of the four fields.
\<close>

definition semantically_zero :: "ValueRecord option \<Rightarrow> bool" where
  "semantically_zero value =
     (case value of
        None \<Rightarrow> True
      | Some v \<Rightarrow>
          XPlacement v \<in> {None, Some 0} \<and> YPlacement v \<in> {None, Some 0}
          \<and> XAdvance v \<in> {None, Some 0} \<and> YAdvance v \<in> {None, Some 0}
          \<and> XPlaDevice v = None \<and> YPlaDevice v = None
          \<and> XAdvDevice v = None \<and> YAdvDevice v = None)"

subsection \<open>Subtables, configuration and errors\<close>

text \<open>
  A \<^verbatim>\<open>PairPos\<close> subtable. \<open>Coverage\<close> is \<^verbatim>\<open>Coverage.glyphs\<close>, \<open>ClassDef1\<close> and
  \<open>ClassDef2\<close> are the \<^verbatim>\<open>classDefs\<close> dictionaries, and \<open>Class1Record\<close> holds, for every
  class1 index, its \<^verbatim>\<open>Class2Record\<close> list of \<^verbatim>\<open>(Value1, Value2)\<close>. \<open>PairSet\<close> is the
  content of a glyph-pair (format 1) subtable, which the code never reads.
\<close>

type_synonym ValuePair = "ValueRecord option \<times> ValueRecord option"

record PairPos =
  Format :: int
  Coverage :: "glyph list"
  ClassDef1 :: "(glyph \<times> int) list"
  ClassDef2 :: "(glyph \<times> int) list"
  Class1Record :: "ValuePair list list"
  PairSet :: "(glyph \<times> ValuePair) list list"

text \<open>The \<^verbatim>\<open>Pairs\<close> dictionary of the source: (class1 glyphs, class2 glyphs) to values.\<close>

type_synonym PairKey = "glyph list \<times> glyph list"
type_synonym Pairs = "(PairKey \<times> ValuePair) list"

text \<open>Values of the keyword arguments handed to the clustering library.\<close>

datatype kwval = KNone | KInt int | KFloat rat | KStr string

type_synonym kwargs = "(string \<times> kwval) list"

record config =
  mode :: string
  clustering_kwargs :: kwargs

text \<open>
  Exceptions. \<open>ValueError\<close> is the source's own \<^verbatim>\<open>raise ValueError(f"Bad config {config}")\<close>;
  \<open>LibraryError\<close> is whatever the subtable builder or the clustering library raises.
\<close>

datatype error =
    ValueError config
  | ZeroDivisionError
  | TypeError
  | UnboundLocalError
  | IndexError
  | AttributeError
  | LibraryError nat

text \<open>
  The collaborators the code calls: \<^verbatim>\<open>buildPairPosClassesSubtable(pairs, ttf.getReverseGlyphMap())\<close>,
  \<^verbatim>\<open>cluster.AgglomerativeClustering(**kwargs).fit_predict(vectors)\<close>, and the order in which
  \<^verbatim>\<open>list(set(...))\<close> enumerates a set, which Python leaves open.
\<close>

record external =
  buildPairPosClassesSubtable :: "Pairs \<Rightarrow> error + PairPos"
  fit_predict :: "kwargs \<Rightarrow> int list list \<Rightarrow> error + int list"
  list_set :: "glyph list list \<Rightarrow> glyph list list"

subsection \<open>Dictionaries with a default\<close>

text \<open>
  \<^verbatim>\<open>d[k]\<close> on a \<^verbatim>\<open>defaultdict(list)\<close> or \<^verbatim>\<open>defaultdict(dict)\<close>: a missing key is first
  inserted with the empty value. The result is the value and the dictionary afterwards.
\<close>

definition dd_getitem :: "('k \<times> 'v list) list \<Rightarrow> 'k \<Rightarrow> 'v list \<times> ('k \<times> 'v list) list" where
  "dd_getitem d k = (case map_of d k of Some v \<Rightarrow> (v, d) | None \<Rightarrow> ([], d @ [(k, [])]))"

text \<open>\<^verbatim>\<open>d[k].append(x)\<close> on a \<^verbatim>\<open>defaultdict(list)\<close>.\<close>

definition dd_append :: "('k \<times> 'v list) list \<Rightarrow> 'k \<Rightarrow> 'v \<Rightarrow> ('k \<times> 'v list) list" where
  "dd_append d k x = (case dd_getitem d k of (v, d') \<Rightarrow> AList.update k (v @ [x]) d')"

text \<open>\<^verbatim>\<open>d.update(other)\<close>.\<close>

definition dict_update :: "('k \<times> 'v) list \<Rightarrow> ('k \<times> 'v) list \<Rightarrow> ('k \<times> 'v) list" where
  "dict_update d other = fold (\<lambda>(k, v). AList.update k v) other d"

text \<open>\<^verbatim>\<open>d.setdefault(k, v)\<close>.\<close>

definition setdefault :: "'k \<Rightarrow> 'v \<Rightarrow> ('k \<times> 'v) list \<Rightarrow> ('k \<times> 'v) list" where
  "setdefault k v d = (case map_of d k of Some _ \<Rightarrow> d | None \<Rightarrow> d @ [(k, v)])"

subsection \<open>Extraction of the pair matrix\<close>

text \<open>
  Lines 95 to 110 of \<^verbatim>\<open>compact_class_pairs\<close>. \<open>classes1\<close> is threaded through the loop
  over the cells, because reading \<^verbatim>\<open>classes1[i]\<close> inserts a missing \<open>i\<close> and the "auto"
  branch later tests \<^verbatim>\<open>len(classes1)\<close>. \<open>classes2\<close> is not read after the loop, so the
  insertion made by \<^verbatim>\<open>classes2[j]\<close> is dropped.
\<close>

definition classes1_of :: "PairPos \<Rightarrow> (int \<times> glyph list) list" where
  "classes1_of subtable =
     fold (\<lambda>g classes1.
             dd_append classes1 (case map_of (ClassDef1 subtable) g of None \<Rightarrow> 0 | Some c \<Rightarrow> c) g)
       (Coverage subtable) []"

definition classes2_of :: "PairPos \<Rightarrow> (int \<times> glyph list) list" where
  "classes2_of subtable =
     fold (\<lambda>(g, i) classes2. dd_append classes2 i g) (ClassDef2 subtable) []"

definition cell_step ::
  "(int \<times> glyph list) list \<Rightarrow> nat \<Rightarrow> nat \<times> ValuePair \<Rightarrow>
   (int \<times> glyph list) list \<times> Pairs \<Rightarrow> (int \<times> glyph list) list \<times> Pairs" where
  "cell_step classes2 i jc s =
     (case jc of (j, (Value1, Value2)) \<Rightarrow>
      case s of (classes1, all_pairs) \<Rightarrow>
        if is_really_zero Value1 \<and> is_really_zero Value2 then s
        else (case dd_getitem classes1 (int i) of (class1_glyphs, classes1') \<Rightarrow>
                (classes1',
                 AList.update (class1_glyphs, fst (dd_getitem classes2 (int j)))
                   (Value1, Value2) all_pairs)))"

definition extract_pairs :: "PairPos \<Rightarrow> (int \<times> glyph list) list \<times> Pairs" where
  "extract_pairs subtable =
     fold (\<lambda>(i, class1) s. fold (cell_step (classes2_of subtable) i) (List.enumerate 0 class1) s)
       (List.enumerate 0 (Class1Record subtable))
       (classes1_of subtable, [])"

subsection \<open>Regrouping\<close>

text \<open>
  The loop \<^verbatim>\<open>for pair, values in pairs.items(): d[pair[0]][pair] = values\<close> on a
  \<^verbatim>\<open>defaultdict(dict)\<close>; the source has it twice, as \<open>groups\<close> of the "max" branch and
  as \<open>lines\<close> of the clustering.
\<close>

definition row_step ::
  "('c \<times> 'd) \<times> 'v \<Rightarrow> ('c \<times> (('c \<times> 'd) \<times> 'v) list) list \<Rightarrow>
   ('c \<times> (('c \<times> 'd) \<times> 'v) list) list" where
  "row_step =
     (\<lambda>(pair, values) groups.
        case dd_getitem groups (fst pair) of (row, groups') \<Rightarrow>
          AList.update (fst pair) (AList.update pair values row) groups')"

definition rows_by_class1 :: "Pairs \<Rightarrow> (glyph list \<times> Pairs) list" where
  "rows_by_class1 pairs = fold row_step pairs []"

text \<open>
  \<^verbatim>\<open>int(len(lines) / lines_per_cluster)\<close>: true division, then truncation towards zero.
  Python computes the quotient in binary floating point; the quotient is exact here, which
  gives the same integer for an integer \<open>lines_per_cluster\<close> as long as the number of
  lines stays below \<open>2 ^ 26\<close>.
\<close>

definition trunc :: "rat \<Rightarrow> int" where
  "trunc q = (if q < 0 then \<lceil>q\<rceil> else \<lfloor>q\<rfloor>)"

definition int_truediv :: "int \<Rightarrow> kwval \<Rightarrow> error + int" where
  "int_truediv n x =
     (case x of
        KInt r \<Rightarrow> if r = 0 then Inl ZeroDivisionError else Inr (trunc (of_int n / of_int r))
      | KFloat q \<Rightarrow> if q = 0 then Inl ZeroDivisionError else Inr (trunc (of_int n / q))
      | _ \<Rightarrow> Inl TypeError)"

text \<open>Lines 192 to 203: the keyword arguments the clustering is constructed with.\<close>

definition clustering_arguments :: "kwargs \<Rightarrow> nat \<Rightarrow> error + kwargs" where
  "clustering_arguments given_kwargs len_lines =
     (case map_of given_kwargs ''lines_per_cluster'' of
        Some lines_per_cluster \<Rightarrow>
          (case int_truediv (int len_lines) lines_per_cluster of
             Inl e \<Rightarrow> Inl e
           | Inr q \<Rightarrow>
               Inr (AList.update ''distance_threshold'' KNone
                     (AList.update ''n_clusters'' (KInt (min (max q 1) (int len_lines)))
                       (AList.delete ''lines_per_cluster'' given_kwargs))))
      | None \<Rightarrow>
          Inr (setdefault ''distance_threshold'' (KFloat (11 / 2))
                (setdefault ''linkage'' (KStr ''ward'')
                  (setdefault ''n_clusters'' KNone given_kwargs))))"

text \<open>Lines 206 to 212: one step of the loop over \<^verbatim>\<open>zip(all_class1, labels)\<close>.\<close>

definition group_step ::
  "(glyph list \<times> Pairs) list \<Rightarrow> glyph list \<times> int \<Rightarrow>
   (int \<times> Pairs) list \<times> Pairs list \<Rightarrow> (int \<times> Pairs) list \<times> Pairs list" where
  "group_step lines cl s =
     (case cl of (class1, label) \<Rightarrow>
      case s of (grouped_lines, ungrouped_lines) \<Rightarrow>
        if label = - 1 then (grouped_lines, ungrouped_lines @ [fst (dd_getitem lines class1)])
        else (case dd_getitem grouped_lines label of (g, grouped_lines') \<Rightarrow>
                (AList.update label (dict_update g (fst (dd_getitem lines class1))) grouped_lines',
                 ungrouped_lines)))"

definition cluster_pairs_by_class2_coverage ::
  "external \<Rightarrow> Pairs \<Rightarrow> kwargs \<Rightarrow> error + Pairs list" where
  "cluster_pairs_by_class2_coverage env pairs given_kwargs =
     (let all_class1 = list_set env (map (\<lambda>(pair, values). fst pair) pairs);
          all_class2 = list_set env (map (\<lambda>(pair, values). snd pair) pairs);
          vectors = map (\<lambda>class1.
                      map (\<lambda>class2. if map_of pairs (class1, class2) \<noteq> None then 1 else 0)
                        all_class2) all_class1;
          lines = rows_by_class1 pairs
      in case clustering_arguments given_kwargs (length lines) of
           Inl e \<Rightarrow> Inl e
         | Inr kwargs \<Rightarrow>
             (case fit_predict env kwargs vectors of
                Inl e \<Rightarrow> Inl e
              | Inr labels \<Rightarrow>
                  (case fold (group_step lines) (zip all_class1 labels) ([], []) of
                     (grouped_lines, ungrouped_lines) \<Rightarrow>
                       Inr (map snd grouped_lines @ ungrouped_lines))))"

text \<open>
  Lines 112 to 139 of \<^verbatim>\<open>compact_class_pairs\<close>: the dictionaries that each branch hands to
  the builder, in the order of the calls. Every branch computes all of them before its
  first call of the builder, so the groups are a value of their own.
\<close>

definition regroup :: "external \<Rightarrow> config \<Rightarrow> nat \<Rightarrow> Pairs \<Rightarrow> error + Pairs list" where
  "regroup env cfg len_classes1 all_pairs =
     (if mode cfg = ''one'' then Inr [all_pairs]
      else if mode cfg = ''max'' then Inr (map snd (rows_by_class1 all_pairs))
      else if mode cfg = ''auto'' then
        (if len_classes1 < 2 then Inr [all_pairs]
         else cluster_pairs_by_class2_coverage env all_pairs (clustering_kwargs cfg))
      else Inl (ValueError cfg))"

text \<open>The calls of the builder, one per group; the first failure ends the run.\<close>

fun build_all :: "(Pairs \<Rightarrow> error + PairPos) \<Rightarrow> Pairs list \<Rightarrow> error + PairPos list" where
  "build_all b [] = Inr []"
| "build_all b (pairs # rest) =
     (case b pairs of
        Inl e \<Rightarrow> Inl e
      | Inr subtable \<Rightarrow>
          (case build_all b rest of Inl e \<Rightarrow> Inl e | Inr subtables \<Rightarrow> Inr (subtable # subtables)))"

text \<open>
  \<^verbatim>\<open>compact_class_pairs(ttf, config, lookup, subtable)\<close>. The font only supplies the glyph
  map of the builder, which \<open>env\<close> holds, and \<open>lookup\<close> is not used.
\<close>

definition compact_class_pairs :: "external \<Rightarrow> config \<Rightarrow> PairPos \<Rightarrow> error + PairPos list" where
  "compact_class_pairs env cfg subtable =
     (case extract_pairs subtable of (classes1, all_pairs) \<Rightarrow>
        (case regroup env cfg (length classes1) all_pairs of
           Inl e \<Rightarrow> Inl e
         | Inr groups \<Rightarrow> build_all (buildPairPosClassesSubtable env) groups))"

definition compact_glyph_pairs :: "config \<Rightarrow> PairPos \<Rightarrow> PairPos list" where
  "compact_glyph_pairs cfg subtable = [subtable]"

subsection \<open>The lookup adapter\<close>

text \<open>
  A lookup holds the subtables that its type gives it: \<^verbatim>\<open>PairPos\<close> objects in a
  pair-adjustment lookup, \<^verbatim>\<open>ExtensionPos\<close> objects in an extension lookup. The extension
  record made by \<^verbatim>\<open>compact_ext_lookup\<close> gets only \<^verbatim>\<open>Format\<close> and \<^verbatim>\<open>ExtSubTable\<close>, so the
  attribute \<^verbatim>\<open>ExtensionLookupType\<close> may be absent.
\<close>

record ExtensionPos =
  ExtFormat :: int
  ExtensionLookupType :: "int option"
  ExtSubTable :: PairPos

record 'a Lookup =
  SubTable :: "'a list"
  SubTableCount :: int

text \<open>
  The loop of \<^verbatim>\<open>compact_lookup\<close>, with \<open>new_subtables\<close> as accumulator, and the two
  assignments that follow it. An exception leaves the lookup as it was, since both
  assignments come after the loop.
\<close>

fun compact_lookup_loop ::
  "external \<Rightarrow> config \<Rightarrow> PairPos list \<Rightarrow> PairPos list \<Rightarrow> error + PairPos list" where
  "compact_lookup_loop env cfg new_subtables [] = Inr new_subtables"
| "compact_lookup_loop env cfg new_subtables (subtable # rest) =
     (if Format subtable = 1 then
        compact_lookup_loop env cfg (new_subtables @ compact_glyph_pairs cfg subtable) rest
      else if Format subtable = 2 then
        (case compact_class_pairs env cfg subtable of
           Inl e \<Rightarrow> Inl e
         | Inr subtables \<Rightarrow> compact_lookup_loop env cfg (new_subtables @ subtables) rest)
      else compact_lookup_loop env cfg new_subtables rest)"

definition compact_lookup ::
  "external \<Rightarrow> config \<Rightarrow> PairPos Lookup \<Rightarrow> error + PairPos Lookup" where
  "compact_lookup env cfg lookup =
     (case compact_lookup_loop env cfg [] (SubTable lookup) of
        Inl e \<Rightarrow> Inl e
      | Inr new_subtables \<Rightarrow>
          Inr (lookup\<lparr>SubTable := new_subtables, SubTableCount := int (length new_subtables)\<rparr>))"

text \<open>
  The loop of \<^verbatim>\<open>compact_ext_lookup\<close>. The local variable \<open>new_subtables\<close> is assigned in
  the two branches only and read after them, so it is part of the loop state: \<open>None\<close>
  before its first assignment, where reading it raises \<^verbatim>\<open>UnboundLocalError\<close>.
\<close>

definition wrap_extension :: "PairPos \<Rightarrow> ExtensionPos" where
  "wrap_extension subtable =
     \<lparr>ExtFormat = 1, ExtensionLookupType = None, ExtSubTable = subtable\<rparr>"

fun compact_ext_lookup_loop ::
  "external \<Rightarrow> config \<Rightarrow> PairPos list option \<Rightarrow> ExtensionPos list \<Rightarrow> ExtensionPos list \<Rightarrow>
   error + ExtensionPos list" where
  "compact_ext_lookup_loop env cfg new_subtables new_ext_subtables [] = Inr new_ext_subtables"
| "compact_ext_lookup_loop env cfg new_subtables new_ext_subtables (ext_subtable # rest) =
     (case (if Format (ExtSubTable ext_subtable) = 1 then
              Inr (Some (compact_glyph_pairs cfg (ExtSubTable ext_subtable)))
            else if Format (ExtSubTable ext_subtable) = 2 then
              (case compact_class_pairs env cfg (ExtSubTable ext_subtable) of
                 Inl e \<Rightarrow> Inl e
               | Inr subtables \<Rightarrow> Inr (Some subtables))
            else Inr new_subtables) of
        Inl e \<Rightarrow> Inl e
      | Inr None \<Rightarrow> Inl UnboundLocalError
      | Inr (Some subtables) \<Rightarrow>
          compact_ext_lookup_loop env cfg (Some subtables)
            (new_ext_subtables @ map wrap_extension subtables) rest)"

definition compact_ext_lookup ::
  "external \<Rightarrow> config \<Rightarrow> ExtensionPos Lookup \<Rightarrow> error + ExtensionPos Lookup" where
  "compact_ext_lookup env cfg lookup =
     (case compact_ext_lookup_loop env cfg None [] (SubTable lookup) of
        Inl e \<Rightarrow> Inl e
      | Inr new_ext_subtables \<Rightarrow>
          Inr (lookup\<lparr>SubTable := new_ext_subtables,
                      SubTableCount := int (length new_ext_subtables)\<rparr>))"

subsection \<open>The whole table\<close>

text \<open>
  The lookup list of the positioning table. The font library builds the subtable objects
  of a lookup from its \<^verbatim>\<open>LookupType\<close>, so the type is the constructor: \<open>PairLookup\<close> is a
  lookup with \<^verbatim>\<open>LookupType == 2\<close>, \<open>ExtLookup\<close> one with \<^verbatim>\<open>LookupType == 9\<close>, and
  \<open>OtherLookup\<close> a lookup of any other type, whose content \<^verbatim>\<open>compact\<close> never reads.
\<close>

datatype GposLookup =
    PairLookup "PairPos Lookup"
  | ExtLookup "ExtensionPos Lookup"
  | OtherLookup nat

text \<open>
  One turn of the loop of \<^verbatim>\<open>compact\<close>. An extension lookup is tested on
  \<^verbatim>\<open>lookup.SubTable[0].ExtensionLookupType\<close>, which raises when the list is empty or the
  attribute is absent.
\<close>

fun compact_one :: "external \<Rightarrow> config \<Rightarrow> GposLookup \<Rightarrow> error + GposLookup" where
  "compact_one env cfg (PairLookup lookup) =
     (case compact_lookup env cfg lookup of Inl e \<Rightarrow> Inl e | Inr l \<Rightarrow> Inr (PairLookup l))"
| "compact_one env cfg (ExtLookup lookup) =
     (case SubTable lookup of
        [] \<Rightarrow> Inl IndexError
      | first # _ \<Rightarrow>
          (case ExtensionLookupType first of
             None \<Rightarrow> Inl AttributeError
           | Some t \<Rightarrow>
               if t = 2 then
                 (case compact_ext_lookup env cfg lookup of
                    Inl e \<Rightarrow> Inl e
                  | Inr l \<Rightarrow> Inr (ExtLookup l))
               else Inr (ExtLookup lookup)))"
| "compact_one env cfg (OtherLookup content) = Inr (OtherLookup content)"

text \<open>
  \<^verbatim>\<open>compact\<close> changes the lookups in place, one after the other, so the result is the
  exception that ended the run, if any, and the lookup list as the run left it.
\<close>

fun compact_loop ::
  "external \<Rightarrow> config \<Rightarrow> GposLookup list \<Rightarrow> error option \<times> GposLookup list" where
  "compact_loop env cfg [] = (None, [])"
| "compact_loop env cfg (lookup # rest) =
     (case compact_one env cfg lookup of
        Inl e \<Rightarrow> (Some e, lookup # rest)
      | Inr lookup' \<Rightarrow>
          (case compact_loop env cfg rest of (r, rest') \<Rightarrow> (r, lookup' # rest')))"

definition compact ::
  "external \<Rightarrow> GposLookup list \<Rightarrow> string \<Rightarrow> kwargs \<Rightarrow> error option \<times> GposLookup list" where
  "compact env ttf mode_arg kwargs_arg =
     compact_loop env \<lparr>mode = mode_arg, clustering_kwargs = kwargs_arg\<rparr> ttf"

subsection \<open>Notions used in the statements and proofs\<close>

text \<open>
  What the code relies on from its collaborators: \<^verbatim>\<open>list(set(xs))\<close> holds every element
  of \<open>xs\<close> once, and the clustering returns one label for every sample.
\<close>

definition enumerates_sets :: "external \<Rightarrow> bool" where
  "enumerates_sets env \<longleftrightarrow>
     (\<forall>xs. distinct (list_set env xs) \<and> set (list_set env xs) = set xs)"

definition one_label_per_sample :: "external \<Rightarrow> bool" where
  "one_label_per_sample env \<longleftrightarrow>
     (\<forall>kwargs vectors labels.
        fit_predict env kwargs vectors = Inr labels \<longrightarrow> length labels = length vectors)"


text \<open>
  The invariant of the loop of \<^const>\<open>rows_by_class1\<close> after the entries \<open>ps\<close>: the keys of
  \<open>groups\<close> are distinct, every row is non-empty and holds entries of its own class1 key
  only, and the rows together hold exactly the entries seen.
\<close>

definition rows_inv ::
  "('c \<times> (('c \<times> 'd) \<times> 'v) list) list \<Rightarrow> (('c \<times> 'd) \<times> 'v) list \<Rightarrow> bool" where
  "rows_inv groups ps \<longleftrightarrow>
     distinct (map fst groups)
     \<and> (\<forall>g\<in>set groups. snd g \<noteq> [] \<and> (\<forall>e\<in>set (snd g). fst (fst e) = fst g))
     \<and> mset (concat (map snd groups)) = mset ps"

text \<open>The update of \<open>grouped_lines\<close> in one step of the loop over the labels.\<close>

definition merge_into ::
  "('l \<times> ('k \<times> 'v) list) list \<Rightarrow> 'l \<Rightarrow> ('k \<times> 'v) list \<Rightarrow> ('l \<times> ('k \<times> 'v) list) list" where
  "merge_into grouped label row =
     (case dd_getitem grouped label of (g, grouped') \<Rightarrow>
        AList.update label (dict_update g row) grouped')"

subsection \<open>Example inputs\<close>

text \<open>A value record that only sets the x-advance, and one whose zero x-advance carries a device table.\<close>

definition advance :: "int \<Rightarrow> ValueRecord" where
  "advance n =
     \<lparr>XPlacement = None, YPlacement = None, XAdvance = Some n, YAdvance = None,
      XPlaDevice = None, YPlaDevice = None, XAdvDevice = None, YAdvDevice = None\<rparr>"

definition zero_advance_with_device :: ValueRecord where
  "zero_advance_with_device =
     \<lparr>XPlacement = None, YPlacement = None, XAdvance = Some 0, YAdvance = None,
      XPlaDevice = None, YPlaDevice = None, XAdvDevice = Some [3, - 2], YAdvDevice = None\<rparr>"

text \<open>
  The matrix of the specification's example: class1 keys \<open>A = (a, b)\<close> and \<open>B = (c)\<close>,
  class2 keys \<open>X = (x)\<close> and \<open>Y = (y)\<close>, entries at \<open>(A, X)\<close>, \<open>(A, Y)\<close> and \<open>(B, X)\<close>; and a
  class-based subtable that holds it.
\<close>

definition example_pairs :: Pairs where
  "example_pairs =
     [(([''a'', ''b''], [''x'']), (Some (advance (- 10)), None)),
      (([''a'', ''b''], [''y'']), (Some (advance 20), None)),
      (([''c''], [''x'']), (Some (advance (- 30)), None))]"

definition example_subtable :: PairPos where
  "example_subtable =
     \<lparr>Format = 2, Coverage = [''a'', ''b'', ''c''], ClassDef1 = [(''c'', 1)],
      ClassDef2 = [(''x'', 1), (''y'', 2)],
      Class1Record =
        [[(None, None), (Some (advance (- 10)), None), (Some (advance 20), None)],
         [(None, None), (Some (advance (- 30)), None), (Some (advance 0), None)]],
      PairSet = []\<rparr>"

text \<open>A subtable with two class1 classes whose second row holds zeros only.\<close>

definition one_row_subtable :: PairPos where
  "one_row_subtable =
     \<lparr>Format = 2, Coverage = [''a'', ''c''], ClassDef1 = [(''c'', 1)],
      ClassDef2 = [(''x'', 1)],
      Class1Record =
        [[(None, None), (Some (advance (- 10)), None)],
         [(None, None), (Some (advance 0), None)]],
      PairSet = []\<rparr>"

text \<open>A subtable whose only cell is a zero x-advance with a device table.\<close>

definition device_subtable :: PairPos where
  "device_subtable =
     \<lparr>Format = 2, Coverage = [''a''], ClassDef1 = [],
      ClassDef2 = [(''x'', 1)],
      Class1Record = [[(None, None), (Some zero_advance_with_device, None)]],
      PairSet = []\<rparr>"

text \<open>A subtable whose cells are all zero, a glyph-pair subtable, and one of an unknown format.\<close>

definition zero_subtable :: PairPos where
  "zero_subtable =
     \<lparr>Format = 2, Coverage = [''a''], ClassDef1 = [],
      ClassDef2 = [(''x'', 1)],
      Class1Record = [[(None, None), (Some (advance 0), Some (advance 0))]],
      PairSet = []\<rparr>"

definition glyph_pair_subtable :: PairPos where
  "glyph_pair_subtable =
     \<lparr>Format = 1, Coverage = [''a''], ClassDef1 = [], ClassDef2 = [], Class1Record = [],
      PairSet = [[(''x'', (Some (advance (- 10)), None))]]\<rparr>"

definition format3_subtable :: PairPos where
  "format3_subtable =
     \<lparr>Format = 3, Coverage = [''q''], ClassDef1 = [], ClassDef2 = [], Class1Record = [],
      PairSet = []\<rparr>"

text \<open>
  Collaborators for the examples: a builder that always succeeds and stores the values of
  its matrix in one row, a clustering that refuses fewer than two samples, as the
  library's input validation does, and otherwise labels the rows 0, 1, 0, 1, and so on,
  and sets enumerated by last occurrence.
\<close>

definition simple_builder :: "Pairs \<Rightarrow> error + PairPos" where
  "simple_builder pairs =
     Inr \<lparr>Format = 2, Coverage = concat (remdups (map (\<lambda>(pair, values). fst pair) pairs)),
          ClassDef1 = [], ClassDef2 = [], Class1Record = [map snd pairs], PairSet = []\<rparr>"

definition simple_fit_predict :: "kwargs \<Rightarrow> int list list \<Rightarrow> error + int list" where
  "simple_fit_predict kwargs vectors =
     (if length vectors < 2 then Inl (LibraryError 0)
      else Inr (map (\<lambda>i. int (i mod 2)) [0..<length vectors]))"

definition example_env :: external where
  "example_env =
     \<lparr>buildPairPosClassesSubtable = simple_builder, fit_predict = simple_fit_predict,
      list_set = remdups\<rparr>"

definition config_of :: "string \<Rightarrow> config" where
  "config_of m = \<lparr>mode = m, clustering_kwargs = []\<rparr>"

section \<open>Properties\<close>

subsection \<open>The "one" strategy\<close>

text \<open>
  Claim C9. Under the mode "one" the regrouping returns exactly one group, the whole pair
  matrix (for a non-empty matrix and for an empty one alike), and the subtables of
  \<open>compact_class_pairs\<close> are the single subtable the builder makes of the extracted matrix.
\<close>

theorem one_strategy_whole_matrix:
  assumes "mode cfg = ''one''"
  shows "regroup env cfg len_classes1 all_pairs = Inr [all_pairs]
    \<and> compact_class_pairs env cfg subtable =
        (case buildPairPosClassesSubtable env (snd (extract_pairs subtable)) of
           Inl e \<Rightarrow> Inl e | Inr built \<Rightarrow> Inr [built])"
  using assms by (simp add: regroup_def compact_class_pairs_def split: prod.splits sum.splits)

theorem one_strategy_whole_matrix_witness:
  "mode (config_of ''one'') = ''one''
   \<and> example_pairs \<noteq> []
   \<and> regroup example_env (config_of ''one'') 2 example_pairs = Inr [example_pairs]"
  using one_strategy_whole_matrix [of "config_of ''one''" example_env 2 example_pairs]
  by (simp add: config_of_def example_pairs_def)

subsection \<open>Rows of the pair matrix\<close>

lemma update_fresh: "k \<notin> fst ` set al \<Longrightarrow> AList.update k v al = al @ [(k, v)]"
  by (induction al) auto

lemma update_last_fresh:
  "k \<notin> fst ` set al \<Longrightarrow> AList.update k v (al @ [(k, w)]) = al @ [(k, v)]"
  by (induction al) auto

lemma mset_concat_update:
  "map_of al k = Some row \<Longrightarrow>
   mset (concat (map snd (AList.update k row' al))) + mset row =
   mset (concat (map snd al)) + mset row'"
  by (induction al) (auto split: if_splits)

lemma set_update_subset: "set (AList.update k v al) \<subseteq> insert (k, v) (set al)"
  by (induction al) auto

lemma row_step_None:
  "map_of groups (fst pair) = None \<Longrightarrow>
   row_step (pair, values) groups = groups @ [(fst pair, [(pair, values)])]"
proof -
  assume n: "map_of groups (fst pair) = None"
  then have "fst pair \<notin> fst ` set groups" by (simp add: map_of_eq_None_iff)
  then have "AList.update (fst pair) [(pair, values)] (groups @ [(fst pair, [])])
      = groups @ [(fst pair, [(pair, values)])]"
    by (rule update_last_fresh)
  then show ?thesis by (simp add: row_step_def dd_getitem_def n)
qed

lemma row_step_Some:
  "map_of groups (fst pair) = Some row \<Longrightarrow>
   row_step (pair, values) groups = AList.update (fst pair) (AList.update pair values row) groups"
  by (simp add: row_step_def dd_getitem_def)

lemma rows_inv_step:
  assumes inv: "rows_inv groups ps" and fresh: "pair \<notin> fst ` set ps"
  shows "rows_inv (row_step (pair, values) groups) (ps @ [(pair, values)])"
proof (cases "map_of groups (fst pair)")
  case None
  then have "fst pair \<notin> fst ` set groups" by (simp add: map_of_eq_None_iff)
  with inv show ?thesis
    unfolding row_step_None [OF None] rows_inv_def by simp
next
  case (Some row)
  then have mem: "(fst pair, row) \<in> set groups" by (rule map_of_SomeD)
  have "set row \<subseteq> set (concat (map snd groups))" using mem by force
  also have "\<dots> = set ps" using inv by (metis rows_inv_def set_mset_mset)
  finally have "pair \<notin> fst ` set row" using fresh by auto
  then have upd: "AList.update pair values row = row @ [(pair, values)]" by (rule update_fresh)
  have d: "distinct (map fst (AList.update (fst pair) (row @ [(pair, values)]) groups))"
    using inv by (simp add: rows_inv_def distinct_update)
  have m: "mset (concat (map snd (AList.update (fst pair) (row @ [(pair, values)]) groups)))
       = mset ps + {#(pair, values)#}"
    using mset_concat_update [OF Some, of "row @ [(pair, values)]"] inv
    by (simp add: rows_inv_def)
  have b: "\<forall>g\<in>set (AList.update (fst pair) (row @ [(pair, values)]) groups).
             snd g \<noteq> [] \<and> (\<forall>e\<in>set (snd g). fst (fst e) = fst g)"
  proof
    fix g assume "g \<in> set (AList.update (fst pair) (row @ [(pair, values)]) groups)"
    then have "g = (fst pair, row @ [(pair, values)]) \<or> g \<in> set groups"
      using set_update_subset by fastforce
    then show "snd g \<noteq> [] \<and> (\<forall>e\<in>set (snd g). fst (fst e) = fst g)"
    proof
      assume g: "g = (fst pair, row @ [(pair, values)])"
      have "\<forall>e\<in>set row. fst (fst e) = fst pair"
        using inv mem unfolding rows_inv_def by fastforce
      then show ?thesis by (simp add: g)
    next
      assume "g \<in> set groups"
      then show ?thesis using inv unfolding rows_inv_def by blast
    qed
  qed
  show ?thesis
    unfolding row_step_Some [OF Some] upd rows_inv_def using d m b by simp
qed

lemma rows_inv_fold:
  "rows_inv groups ps \<Longrightarrow> distinct (map fst (ps @ qs)) \<Longrightarrow>
   rows_inv (fold row_step qs groups) (ps @ qs)"
proof (induction qs arbitrary: groups ps)
  case Nil
  then show ?case by simp
next
  case (Cons q qs)
  obtain pair vals where q: "q = (pair, vals)" by (cases q)
  have "pair \<notin> fst ` set ps" using Cons.prems(2) q by auto
  with Cons.prems(1) have "rows_inv (row_step (pair, vals) groups) (ps @ [(pair, vals)])"
    by (rule rows_inv_step)
  moreover have "distinct (map fst ((ps @ [(pair, vals)]) @ qs))"
    using Cons.prems(2) q by simp
  ultimately have "rows_inv (fold row_step qs (row_step (pair, vals) groups))
      ((ps @ [(pair, vals)]) @ qs)"
    by (rule Cons.IH)
  then show ?case by (simp add: q)
qed

lemma rows_by_class1_inv:
  "distinct (map fst pairs) \<Longrightarrow> rows_inv (rows_by_class1 pairs) pairs"
  using rows_inv_fold [of "[]" "[]" pairs]
  by (simp add: rows_by_class1_def rows_inv_def)

lemma rows_inv_keys:
  assumes "rows_inv groups ps"
  shows "fst ` set groups = fst ` fst ` set ps"
proof -
  have eq: "set (concat (map snd groups)) = set ps"
    using assms by (metis rows_inv_def set_mset_mset)
  show ?thesis
  proof (intro set_eqI iffI)
    fix c assume "c \<in> fst ` set groups"
    then obtain g where mem: "g \<in> set groups" and c: "fst g = c" by auto
    then have ne: "snd g \<noteq> []" and all: "\<forall>e\<in>set (snd g). fst (fst e) = fst g"
      using assms unfolding rows_inv_def by blast+
    from ne obtain e where e: "e \<in> set (snd g)" by (cases "snd g") auto
    then have "e \<in> set (concat (map snd groups))" using mem by auto
    then have "e \<in> set ps" unfolding eq .
    moreover have "fst (fst e) = c" using all e c by simp
    ultimately show "c \<in> fst ` fst ` set ps" by force
  next
    fix c assume "c \<in> fst ` fst ` set ps"
    then obtain e where e: "e \<in> set ps" "fst (fst e) = c" by auto
    then have "e \<in> set (concat (map snd groups))" unfolding eq by simp
    then obtain g where g: "g \<in> set groups" "e \<in> set (snd g)" by auto
    then have "fst (fst e) = fst g" using assms unfolding rows_inv_def by blast
    then show "c \<in> fst ` set groups" using e g by force
  qed
qed

lemma rows_inv_length:
  assumes "rows_inv groups ps"
  shows "length groups = card (fst ` fst ` set ps)"
proof -
  have "length groups = length (map fst groups)" by simp
  also have "\<dots> = card (set (map fst groups))"
    using assms distinct_card [of "map fst groups"] by (simp add: rows_inv_def)
  also have "\<dots> = card (fst ` fst ` set ps)"
    using rows_inv_keys [OF assms] by simp
  finally show ?thesis .
qed

subsection \<open>Merging rows by cluster label\<close>

lemma dict_update_disjoint:
  "distinct (map fst row) \<Longrightarrow> fst ` set row \<inter> fst ` set g = {} \<Longrightarrow> dict_update g row = g @ row"
proof (induction row arbitrary: g)
  case Nil
  then show ?case by (simp add: dict_update_def)
next
  case (Cons e row)
  obtain k v where e: "e = (k, v)" by (cases e)
  have fresh: "k \<notin> fst ` set g" using Cons.prems(2) e by auto
  have d: "distinct (map fst row)" using Cons.prems(1) by simp
  have "fst ` set row \<inter> fst ` set (g @ [(k, v)]) = {}"
    using Cons.prems e by auto
  with d have "dict_update (g @ [(k, v)]) row = (g @ [(k, v)]) @ row" by (rule Cons.IH)
  then show ?case by (simp add: dict_update_def e update_fresh [OF fresh])
qed

lemma merge_into_mset:
  assumes d: "distinct (map fst row)"
    and disj: "fst ` set row \<inter> fst ` set (concat (map snd grouped)) = {}"
  shows "mset (concat (map snd (merge_into grouped label row)))
       = mset (concat (map snd grouped)) + mset row"
proof (cases "map_of grouped label")
  case None
  then have fresh: "label \<notin> fst ` set grouped" by (simp add: map_of_eq_None_iff)
  have "dict_update [] row = [] @ row" using d by (intro dict_update_disjoint) simp_all
  then have "merge_into grouped label row = grouped @ [(label, row)]"
    by (simp add: merge_into_def dd_getitem_def None update_last_fresh [OF fresh])
  then show ?thesis by simp
next
  case (Some g)
  then have "(label, g) \<in> set grouped" by (rule map_of_SomeD)
  then have "set g \<subseteq> set (concat (map snd grouped))" by force
  then have "fst ` set row \<inter> fst ` set g = {}" using disj by blast
  with d have "dict_update g row = g @ row" by (rule dict_update_disjoint)
  then have m: "merge_into grouped label row = AList.update label (g @ row) grouped"
    by (simp add: merge_into_def dd_getitem_def Some)
  show ?thesis
    using mset_concat_update [OF Some, of "g @ row"] by (simp add: m)
qed

lemma group_step_mset:
  assumes d: "distinct (map fst (fst (dd_getitem lines c)))"
    and disj: "fst ` set (fst (dd_getitem lines c)) \<inter> fst ` set (concat (map snd (fst s))) = {}"
  shows "mset (concat (map snd (fst (group_step lines (c, l) s)) @ snd (group_step lines (c, l) s)))
       = mset (concat (map snd (fst s) @ snd s)) + mset (fst (dd_getitem lines c))"
proof (cases s)
  case (Pair grouped ungrouped)
  show ?thesis
  proof (cases "l = - 1")
    case True
    then show ?thesis by (simp add: group_step_def Pair)
  next
    case False
    have "fst (group_step lines (c, l) s) = merge_into grouped l (fst (dd_getitem lines c))"
      "snd (group_step lines (c, l) s) = ungrouped"
      using False by (simp_all add: group_step_def Pair merge_into_def split: prod.splits)
    then show ?thesis
      using merge_into_mset [OF d, of grouped l] disj by (simp add: Pair)
  qed
qed

lemma fold_group_step_mset:
  assumes keys: "\<And>c. \<forall>e\<in>set (fst (dd_getitem lines c)). fst (fst e) = c"
    and dist: "\<And>c. distinct (map fst (fst (dd_getitem lines c)))"
  shows "distinct (map fst zs) \<Longrightarrow>
     \<forall>e\<in>set (concat (map snd (fst s) @ snd s)). fst (fst e) \<notin> fst ` set zs \<Longrightarrow>
     mset (concat (map snd (fst (fold (group_step lines) zs s))
                   @ snd (fold (group_step lines) zs s)))
       = mset (concat (map snd (fst s) @ snd s))
         + (\<Sum>z\<leftarrow>zs. mset (fst (dd_getitem lines (fst z))))"
proof (induction zs arbitrary: s)
  case Nil
  then show ?case by simp
next
  case (Cons z zs)
  obtain c l where z: "z = (c, l)" by (cases z)
  let ?row = "fst (dd_getitem lines c)"
  let ?s' = "group_step lines (c, l) s"
  have disj: "fst ` set ?row \<inter> fst ` set (concat (map snd (fst s))) = {}"
  proof -
    { fix k assume a: "k \<in> fst ` set ?row" and b: "k \<in> fst ` set (concat (map snd (fst s)))"
      from a have "fst k = c" using keys [of c] by auto
      moreover from b obtain e where e: "e \<in> set (concat (map snd (fst s)))" "k = fst e"
        by blast
      then have "e \<in> set (concat (map snd (fst s) @ snd s))" by simp
      then have "fst (fst e) \<notin> fst ` set (z # zs)" using Cons.prems(2) by blast
      then have "fst k \<noteq> c" using e z by simp
      ultimately have False by simp }
    then show ?thesis by blast
  qed
  have step: "mset (concat (map snd (fst ?s') @ snd ?s'))
       = mset (concat (map snd (fst s) @ snd s)) + mset ?row"
    using dist [of c] disj by (rule group_step_mset)
  have d': "distinct (map fst zs)" using Cons.prems(1) by simp
  have fresh': "\<forall>e\<in>set (concat (map snd (fst ?s') @ snd ?s')). fst (fst e) \<notin> fst ` set zs"
  proof
    fix e assume "e \<in> set (concat (map snd (fst ?s') @ snd ?s'))"
    then have "e \<in># mset (concat (map snd (fst ?s') @ snd ?s'))" by simp
    then have "e \<in># mset (concat (map snd (fst s) @ snd s)) + mset ?row"
      unfolding step .
    then have "e \<in> set (concat (map snd (fst s) @ snd s)) \<or> e \<in> set ?row" by simp
    then show "fst (fst e) \<notin> fst ` set zs"
    proof
      assume "e \<in> set (concat (map snd (fst s) @ snd s))"
      then have "fst (fst e) \<notin> fst ` set (z # zs)" using Cons.prems(2) by blast
      then show ?thesis by simp
    next
      assume "e \<in> set ?row"
      then have "fst (fst e) = c" using keys [of c] by blast
      moreover have "c \<notin> fst ` set zs" using Cons.prems(1) z by simp
      ultimately show ?thesis by simp
    qed
  qed
  have "mset (concat (map snd (fst (fold (group_step lines) zs ?s'))
                   @ snd (fold (group_step lines) zs ?s')))
       = mset (concat (map snd (fst ?s') @ snd ?s'))
         + (\<Sum>z\<leftarrow>zs. mset (fst (dd_getitem lines (fst z))))"
    using d' fresh' by (rule Cons.IH)
  then show ?case using step by (simp add: z ac_simps)
qed

lemma rows_inv_line:
  assumes inv: "rows_inv lines ps" and mem: "g \<in> set lines"
  shows "fst (dd_getitem lines (fst g)) = snd g"
proof -
  have "distinct (map fst lines)" using inv by (simp add: rows_inv_def)
  then have "map_of lines (fst g) = Some (snd g)" using mem by simp
  then show ?thesis by (simp add: dd_getitem_def)
qed

lemma rows_inv_line_cases:
  assumes inv: "rows_inv lines ps"
  shows "fst (dd_getitem lines c) = [] \<or> (c, fst (dd_getitem lines c)) \<in> set lines"
  by (cases "map_of lines c") (auto simp: dd_getitem_def dest: map_of_SomeD)

lemma rows_inv_line_keys:
  assumes inv: "rows_inv lines ps"
  shows "\<forall>e\<in>set (fst (dd_getitem lines c)). fst (fst e) = c"
  using rows_inv_line_cases [OF inv, of c]
proof
  assume "fst (dd_getitem lines c) = []"
  then show ?thesis by simp
next
  assume "(c, fst (dd_getitem lines c)) \<in> set lines"
  then show ?thesis using inv unfolding rows_inv_def by fastforce
qed

lemma rows_inv_line_distinct:
  assumes inv: "rows_inv lines ps" and d: "distinct (map fst ps)"
  shows "distinct (map fst (fst (dd_getitem lines c)))"
  using rows_inv_line_cases [OF inv, of c]
proof
  assume "fst (dd_getitem lines c) = []"
  then show ?thesis by simp
next
  assume mem: "(c, fst (dd_getitem lines c)) \<in> set lines"
  have "mset (map fst (concat (map snd lines))) = mset (map fst ps)"
    using inv by (simp add: rows_inv_def)
  then have "distinct (map fst (concat (map snd lines)))"
    using d mset_eq_imp_distinct_iff by blast
  then have "distinct (concat (map (map fst) (map snd lines)))"
    by (simp add: map_concat)
  then have "\<forall>ys\<in>set (map (map fst) (map snd lines)). distinct ys"
    by (simp add: distinct_concat_iff)
  then show ?thesis using mem by force
qed

lemma rows_inv_sum:
  assumes inv: "rows_inv lines ps"
    and cs: "distinct cs" "set cs = fst ` set lines"
  shows "(\<Sum>c\<leftarrow>cs. mset (fst (dd_getitem lines c))) = mset ps"
proof -
  have dl: "distinct (map fst lines)" using inv by (simp add: rows_inv_def)
  have "set cs = set (map fst lines)" using cs(2) by simp
  then have "mset cs = mset (map fst lines)"
    using set_eq_iff_mset_eq_distinct [OF cs(1) dl] by blast
  then have "image_mset (\<lambda>c. mset (fst (dd_getitem lines c))) (mset cs)
      = image_mset (\<lambda>c. mset (fst (dd_getitem lines c))) (mset (map fst lines))"
    by (rule arg_cong)
  then have "mset (map (\<lambda>c. mset (fst (dd_getitem lines c))) cs)
      = mset (map (\<lambda>c. mset (fst (dd_getitem lines c))) (map fst lines))"
    by (simp only: mset_map)
  then have "(\<Sum>c\<leftarrow>cs. mset (fst (dd_getitem lines c)))
      = (\<Sum>c\<leftarrow>map fst lines. mset (fst (dd_getitem lines c)))"
    by (metis sum_mset_sum_list)
  also have "\<dots> = (\<Sum>g\<leftarrow>lines. mset (snd g))"
    using rows_inv_line [OF inv] by (simp add: comp_def cong: map_cong)
  also have "\<dots> = mset (concat (map snd lines))"
    by (simp add: mset_concat comp_def)
  also have "\<dots> = mset ps" using inv by (simp add: rows_inv_def)
  finally show ?thesis .
qed

subsection \<open>Conservation of the pair matrix\<close>

lemma sum_case_InrD:
  "(case x of Inl e \<Rightarrow> Inl e | Inr v \<Rightarrow> f v) = Inr r \<Longrightarrow> \<exists>v. x = Inr v \<and> f v = Inr r"
  by (cases x) simp_all

lemma cluster_conserves:
  assumes d: "distinct (map fst pairs)"
    and es: "enumerates_sets env"
    and ol: "one_label_per_sample env"
    and ret: "cluster_pairs_by_class2_coverage env pairs kw = Inr groups"
  shows "mset (concat groups) = mset pairs"
proof -
  let ?cs = "list_set env (map (\<lambda>(pair, values). fst pair) pairs)"
  let ?c2 = "list_set env (map (\<lambda>(pair, values). snd pair) pairs)"
  let ?vectors = "map (\<lambda>class1.
                      map (\<lambda>class2. if map_of pairs (class1, class2) \<noteq> None then 1 else 0)
                        ?c2) ?cs"
  let ?lines = "rows_by_class1 pairs"
  let ?zs = "zip ?cs labels"
  have "(case clustering_arguments kw (length ?lines) of
           Inl e \<Rightarrow> Inl e
         | Inr kwargs \<Rightarrow>
             (case fit_predict env kwargs ?vectors of
                Inl e \<Rightarrow> Inl e
              | Inr labels \<Rightarrow>
                  (case fold (group_step ?lines) (zip ?cs labels) ([], []) of
                     (grouped_lines, ungrouped_lines) \<Rightarrow>
                       Inr (map snd grouped_lines @ ungrouped_lines)))) = Inr groups"
    using ret unfolding cluster_pairs_by_class2_coverage_def Let_def .
  then obtain kwargs where
    "(case fit_predict env kwargs ?vectors of
        Inl e \<Rightarrow> Inl e
      | Inr labels \<Rightarrow>
          (case fold (group_step ?lines) (zip ?cs labels) ([], []) of
             (grouped_lines, ungrouped_lines) \<Rightarrow>
               Inr (map snd grouped_lines @ ungrouped_lines))) = Inr groups"
    using sum_case_InrD by fastforce
  then obtain labels where
    fp: "fit_predict env kwargs ?vectors = Inr labels"
    and "(case fold (group_step ?lines) (zip ?cs labels) ([], []) of
             (grouped_lines, ungrouped_lines) \<Rightarrow>
               Inr (map snd grouped_lines @ ungrouped_lines)) = (Inr groups :: error + Pairs list)"
    using sum_case_InrD by fastforce
  then have g: "groups = map snd (fst (fold (group_step ?lines) (zip ?cs labels) ([], [])))
                     @ snd (fold (group_step ?lines) (zip ?cs labels) ([], []))"
    by (simp add: case_prod_beta)
  have inv: "rows_inv ?lines pairs" using d by (rule rows_by_class1_inv)
  have len: "length labels = length ?cs"
    using ol fp unfolding one_label_per_sample_def by fastforce
  then have fstzip: "map fst (zip ?cs labels) = ?cs" by simp
  have dcs: "distinct ?cs" using es unfolding enumerates_sets_def by blast
  have "set ?cs = set (map (\<lambda>(pair, values). fst pair) pairs)"
    using es unfolding enumerates_sets_def by blast
  also have "\<dots> = fst ` fst ` set pairs" by force
  also have "\<dots> = fst ` set ?lines" using rows_inv_keys [OF inv] by simp
  finally have scs: "set ?cs = fst ` set ?lines" .
  have k: "\<And>c. \<forall>e\<in>set (fst (dd_getitem ?lines c)). fst (fst e) = c"
    by (rule rows_inv_line_keys [OF inv])
  have dl: "\<And>c. distinct (map fst (fst (dd_getitem ?lines c)))"
    by (rule rows_inv_line_distinct [OF inv d])
  have dz: "distinct (map fst (zip ?cs labels))" unfolding fstzip by (rule dcs)
  have fr: "\<forall>e\<in>set (concat (map snd (fst (([], []) :: (int \<times> Pairs) list \<times> Pairs list))
                @ snd (([], []) :: (int \<times> Pairs) list \<times> Pairs list))).
              fst (fst e) \<notin> fst ` set (zip ?cs labels)"
    by simp
  have "mset (concat groups)
      = mset (concat (map snd (fst (([], []) :: (int \<times> Pairs) list \<times> Pairs list))
                @ snd (([], []) :: (int \<times> Pairs) list \<times> Pairs list)))
        + (\<Sum>z\<leftarrow>zip ?cs labels. mset (fst (dd_getitem ?lines (fst z))))"
    unfolding g by (rule fold_group_step_mset [OF k dl dz fr])
  also have "\<dots> = (\<Sum>c\<leftarrow>map fst (zip ?cs labels). mset (fst (dd_getitem ?lines c)))"
    by (simp add: comp_def)
  also have "\<dots> = (\<Sum>c\<leftarrow>?cs. mset (fst (dd_getitem ?lines c)))"
    unfolding fstzip ..
  also have "\<dots> = mset pairs" using inv dcs scs by (rule rows_inv_sum)
  finally show ?thesis .
qed

lemma regroup_one: "mode cfg = ''one'' \<Longrightarrow> regroup env cfg n pairs = Inr [pairs]"
  by (simp add: regroup_def)

lemma regroup_max:
  "mode cfg = ''max'' \<Longrightarrow> regroup env cfg n pairs = Inr (map snd (rows_by_class1 pairs))"
  by (simp add: regroup_def)

lemma regroup_auto:
  "mode cfg = ''auto'' \<Longrightarrow>
   regroup env cfg n pairs =
     (if n < 2 then Inr [pairs]
      else cluster_pairs_by_class2_coverage env pairs (clustering_kwargs cfg))"
  by (simp add: regroup_def)

lemma regroup_bad:
  "mode cfg \<noteq> ''one'' \<Longrightarrow> mode cfg \<noteq> ''max'' \<Longrightarrow> mode cfg \<noteq> ''auto'' \<Longrightarrow>
   regroup env cfg n pairs = Inl (ValueError cfg)"
  unfolding regroup_def by (simp only: if_False)

lemma regroup_conserves:
  assumes d: "distinct (map fst pairs)"
    and es: "enumerates_sets env"
    and ol: "one_label_per_sample env"
    and ret: "regroup env cfg n pairs = Inr groups"
  shows "mset (concat groups) = mset pairs"
proof -
  consider (one) "mode cfg = ''one''" | (max) "mode cfg = ''max''" | (auto) "mode cfg = ''auto''"
    | (bad) "mode cfg \<noteq> ''one''" "mode cfg \<noteq> ''max''" "mode cfg \<noteq> ''auto''"
    by blast
  then show ?thesis
  proof cases
    case one
    then have "groups = [pairs]" using ret by (simp only: regroup_one sum.inject)
    then show ?thesis by simp
  next
    case max
    then have "groups = map snd (rows_by_class1 pairs)"
      using ret by (simp only: regroup_max sum.inject)
    then show ?thesis using rows_by_class1_inv [OF d] by (simp add: rows_inv_def)
  next
    case auto
    show ?thesis
    proof (cases "n < 2")
      case True
      then have "groups = [pairs]" using ret auto by (simp only: regroup_auto if_True sum.inject)
      then show ?thesis by simp
    next
      case False
      then have "cluster_pairs_by_class2_coverage env pairs (clustering_kwargs cfg) = Inr groups"
        using ret auto by (simp only: regroup_auto if_False)
      with d es ol show ?thesis by (rule cluster_conserves)
    qed
  next
    case bad
    then have "regroup env cfg n pairs = Inl (ValueError cfg)" by (rule regroup_bad)
    then show ?thesis using ret by simp
  qed
qed

lemma cell_step_distinct:
  assumes "distinct (map fst (snd s))"
  shows "distinct (map fst (snd (cell_step classes2 i jc s)))"
proof -
  obtain j v1 v2 where jc: "jc = (j, (v1, v2))" by (cases jc) auto
  obtain c1 ap where s: "s = (c1, ap)" by (cases s)
  have "distinct (map fst ap)" using assms s by simp
  then show ?thesis
    unfolding jc s cell_step_def by (simp add: distinct_update split: prod.splits)
qed

lemma fold_cell_step_distinct:
  "distinct (map fst (snd s)) \<Longrightarrow>
   distinct (map fst (snd (fold (cell_step classes2 i) cells s)))"
  by (induction cells arbitrary: s) (simp_all add: cell_step_distinct)

lemma fold_rows_distinct:
  "distinct (map fst (snd s)) \<Longrightarrow>
   distinct (map fst (snd (fold (\<lambda>(i, class1) s.
        fold (cell_step classes2 i) (List.enumerate 0 class1) s) rows s)))"
proof (induction rows arbitrary: s)
  case Nil
  then show ?case by simp
next
  case (Cons r rows)
  obtain i class1 where r: "r = (i, class1)" by (cases r)
  have "distinct (map fst (snd (fold (cell_step classes2 i) (List.enumerate 0 class1) s)))"
    using Cons.prems by (rule fold_cell_step_distinct)
  then show ?case unfolding r by (simp add: Cons.IH)
qed

lemma extract_pairs_distinct: "distinct (map fst (snd (extract_pairs subtable)))"
  unfolding extract_pairs_def by (rule fold_rows_distinct) simp

lemma build_all_length: "build_all b groups = Inr subtables \<Longrightarrow> length subtables = length groups"
  by (induction groups arbitrary: subtables) (auto split: sum.splits)

subsection \<open>Facts about the examples\<close>

lemma compact_class_pairs_eq:
  "compact_class_pairs env cfg subtable =
     (case regroup env cfg (length (fst (extract_pairs subtable))) (snd (extract_pairs subtable)) of
        Inl e \<Rightarrow> Inl e
      | Inr groups \<Rightarrow> build_all (buildPairPosClassesSubtable env) groups)"
  by (simp add: compact_class_pairs_def case_prod_beta)

lemma example_env_enumerates: "enumerates_sets example_env"
  by (simp add: enumerates_sets_def example_env_def)

lemma example_env_labels: "one_label_per_sample example_env"
  by (auto simp: one_label_per_sample_def example_env_def simple_fit_predict_def split: if_splits)

lemma example_pairs_distinct: "distinct (map fst example_pairs)"
  by (simp add: example_pairs_def)

lemma rows_example_pairs:
  "rows_by_class1 example_pairs =
     [([''a'', ''b''], take 2 example_pairs), ([''c''], drop 2 example_pairs)]"
  by (simp add: rows_by_class1_def row_step_def dd_getitem_def example_pairs_def)

lemma regroup_auto_example:
  "regroup example_env (config_of ''auto'') 2 example_pairs =
     Inr [take 2 example_pairs, drop 2 example_pairs]"
  by (simp add: regroup_def config_of_def cluster_pairs_by_class2_coverage_def Let_def
      rows_example_pairs clustering_arguments_def setdefault_def)
     (simp add: example_env_def example_pairs_def simple_fit_predict_def group_step_def
      dd_getitem_def dict_update_def)

lemmas extract_defs =
  extract_pairs_def classes1_of_def classes2_of_def dd_append_def dd_getitem_def cell_step_def
  is_really_zero_def getattr_def device_attrs_def enumerate_eq_zip advance_def

lemma extract_example_subtable:
  "extract_pairs example_subtable = ([(0, [''a'', ''b'']), (1, [''c''])], example_pairs)"
  by (simp add: example_subtable_def example_pairs_def extract_defs)

lemma extract_zero_subtable: "extract_pairs zero_subtable = ([(0, [''a''])], [])"
  by (simp add: zero_subtable_def extract_defs)

lemma extract_one_row_subtable:
  "extract_pairs one_row_subtable =
     ([(0, [''a'']), (1, [''c''])], [(([''a''], [''x'']), (Some (advance (- 10)), None))])"
  by (simp add: one_row_subtable_def extract_defs)

lemma extract_device_subtable: "extract_pairs device_subtable = ([(0, [''a''])], [])"
  by (simp add: device_subtable_def zero_advance_with_device_def extract_defs)

subsection \<open>The format-1 pass-through\<close>

lemma compact_lookup_loop_format1:
  "\<forall>st\<in>set sts. Format st = 1 \<Longrightarrow> compact_lookup_loop env cfg acc sts = Inr (acc @ sts)"
  by (induction sts arbitrary: acc) (simp_all add: compact_glyph_pairs_def)

lemma compact_ext_lookup_loop_format1:
  "\<forall>e\<in>set es. Format (ExtSubTable e) = 1 \<Longrightarrow>
   compact_ext_lookup_loop env cfg v acc es =
     Inr (acc @ map (\<lambda>e. wrap_extension (ExtSubTable e)) es)"
  by (induction es arbitrary: acc v) (simp_all add: compact_glyph_pairs_def)

lemma compact_lookup_loop_result:
  "compact_lookup_loop env cfg acc sts = Inr out \<Longrightarrow>
   out = acc @ concat (map (\<lambda>st. if Format st = 1 then [st]
                                  else if Format st = 2 then
                                    (case compact_class_pairs env cfg st of
                                       Inl e \<Rightarrow> [] | Inr subtables \<Rightarrow> subtables)
                                  else []) sts)"
proof (induction sts arbitrary: acc)
  case Nil
  then show ?case by simp
next
  case (Cons st sts)
  show ?case
  proof (cases "Format st = 1")
    case True
    then have "compact_lookup_loop env cfg (acc @ [st]) sts = Inr out"
      using Cons.prems by (simp add: compact_glyph_pairs_def)
    from Cons.IH [OF this] show ?thesis using True by simp
  next
    case False
    show ?thesis
    proof (cases "Format st = 2")
      case True
      then obtain r where r: "compact_class_pairs env cfg st = Inr r"
        and l: "compact_lookup_loop env cfg (acc @ r) sts = Inr out"
        using Cons.prems by (cases "compact_class_pairs env cfg st") simp_all
      from Cons.IH [OF l] show ?thesis using True r by simp
    next
      case other: False
      then have "compact_lookup_loop env cfg acc sts = Inr out"
        using Cons.prems False by simp
      from Cons.IH [OF this] show ?thesis using False other by simp
    qed
  qed
qed

lemma compact_lookup_loop_returns:
  "\<forall>st\<in>set sts. Format st = 2 \<longrightarrow> (\<exists>r. compact_class_pairs env cfg st = Inr r) \<Longrightarrow>
   \<exists>out. compact_lookup_loop env cfg acc sts = Inr out"
proof (induction sts arbitrary: acc)
  case Nil
  then show ?case by simp
next
  case (Cons st sts)
  have rest: "\<And>acc. \<exists>out. compact_lookup_loop env cfg acc sts = Inr out"
    using Cons by simp
  show ?case
  proof (cases "Format st = 2")
    case True
    then obtain r where "compact_class_pairs env cfg st = Inr r" using Cons.prems by auto
    then show ?thesis using True rest by simp
  next
    case False
    then show ?thesis using rest by simp
  qed
qed

lemma subseq_filter_concat:
  assumes "\<And>x. P x \<Longrightarrow> f x = [x]"
  shows "subseq (filter P xs) (concat (map f xs))"
proof (induction xs)
  case Nil
  then show ?case by simp
next
  case (Cons x xs)
  show ?case
  proof (cases "P x")
    case True
    then show ?thesis using Cons assms by simp
  next
    case False
    then show ?thesis using Cons by (simp add: list_emb_append2)
  qed
qed

lemma compact_ext_lookup_loop_subseq:
  "compact_ext_lookup_loop env cfg v acc es = Inr out \<Longrightarrow>
   \<exists>rest. out = acc @ rest
     \<and> subseq (filter (\<lambda>st. Format st = 1) (map ExtSubTable es)) (map ExtSubTable rest)"
proof (induction es arbitrary: v acc)
  case Nil
  then show ?case by simp
next
  case (Cons e es)
  let ?w = "if Format (ExtSubTable e) = 1 then
              Inr (Some (compact_glyph_pairs cfg (ExtSubTable e)))
            else if Format (ExtSubTable e) = 2 then
              (case compact_class_pairs env cfg (ExtSubTable e) of
                 Inl e \<Rightarrow> Inl e
               | Inr subtables \<Rightarrow> Inr (Some subtables))
            else Inr v"
  from Cons.prems obtain r where w: "?w = Inr (Some r)"
    and loop: "compact_ext_lookup_loop env cfg (Some r) (acc @ map wrap_extension r) es = Inr out"
    by (auto split: sum.splits option.splits)
  from Cons.IH [OF loop] obtain rest where
    out: "out = (acc @ map wrap_extension r) @ rest"
    and sub: "subseq (filter (\<lambda>st. Format st = 1) (map ExtSubTable es)) (map ExtSubTable rest)"
    by blast
  have un: "map ExtSubTable (map wrap_extension r) = r"
    by (induction r) (simp_all add: wrap_extension_def)
  have "subseq (filter (\<lambda>st. Format st = 1) (map ExtSubTable (e # es)))
          (map ExtSubTable (map wrap_extension r @ rest))"
  proof (cases "Format (ExtSubTable e) = 1")
    case True
    then have "r = [ExtSubTable e]" using w by (simp add: compact_glyph_pairs_def)
    then show ?thesis using True sub by (simp add: wrap_extension_def)
  next
    case False
    have "subseq (filter (\<lambda>st. Format st = 1) (map ExtSubTable es))
            (r @ map ExtSubTable rest)"
      using sub by (rule list_emb_append2)
    then show ?thesis using False un by simp
  qed
  then show ?case using out by auto
qed

text \<open>
  Claim C8. A glyph-pair (format 1) subtable is returned unchanged under every
  configuration, also in a lookup that holds subtables of other formats beside it.
  \<open>compact_glyph_pairs\<close> returns the subtable itself and nothing else. Whenever
  \<open>compact_lookup\<close> returns, the new subtable list is the concatenation, in the order of
  the old list, of what each old subtable gives: a format-1 subtable gives itself, a
  format-2 subtable the subtables built for it, any other nothing; so the format-1
  subtables of the old list are, in their order, a subsequence of the new list, and each
  is a member of it. \<open>compact_lookup\<close> returns whenever \<open>compact_class_pairs\<close> does on every
  format-2 subtable of the lookup. Whenever \<open>compact_ext_lookup\<close> returns, the wrapped
  format-1 subtables of the old list are, in their order, a subsequence of the subtables
  wrapped by the new list. A lookup of format-1 subtables only keeps its list, and an
  extension lookup that wraps format-1 subtables only wraps the same subtables again.
\<close>

theorem format1_pass_through:
  "compact_glyph_pairs cfg subtable = [subtable]
   \<and> (\<forall>l. compact_lookup env cfg lookup = Inr l \<longrightarrow>
          SubTable l =
            concat (map (\<lambda>st. if Format st = 1 then [st]
                               else if Format st = 2 then
                                 (case compact_class_pairs env cfg st of
                                    Inl e \<Rightarrow> [] | Inr subtables \<Rightarrow> subtables)
                               else []) (SubTable lookup))
          \<and> subseq (filter (\<lambda>st. Format st = 1) (SubTable lookup)) (SubTable l)
          \<and> (\<forall>st\<in>set (SubTable lookup). Format st = 1 \<longrightarrow> st \<in> set (SubTable l)))
   \<and> ((\<forall>st\<in>set (SubTable lookup).
           Format st = 2 \<longrightarrow> (\<exists>r. compact_class_pairs env cfg st = Inr r)) \<longrightarrow>
        (\<exists>l. compact_lookup env cfg lookup = Inr l))
   \<and> (\<forall>l. compact_ext_lookup env cfg ext_lookup = Inr l \<longrightarrow>
          subseq (filter (\<lambda>st. Format st = 1) (map ExtSubTable (SubTable ext_lookup)))
            (map ExtSubTable (SubTable l))
          \<and> (\<forall>e\<in>set (SubTable ext_lookup).
                Format (ExtSubTable e) = 1 \<longrightarrow> ExtSubTable e \<in> set (map ExtSubTable (SubTable l))))
   \<and> ((\<forall>st\<in>set (SubTable lookup). Format st = 1) \<longrightarrow>
        compact_lookup env cfg lookup =
          Inr (lookup\<lparr>SubTable := SubTable lookup,
                      SubTableCount := int (length (SubTable lookup))\<rparr>))
   \<and> ((\<forall>e\<in>set (SubTable ext_lookup). Format (ExtSubTable e) = 1) \<longrightarrow>
        (\<exists>l. compact_ext_lookup env cfg ext_lookup = Inr l
             \<and> map ExtSubTable (SubTable l) = map ExtSubTable (SubTable ext_lookup)))"
proof -
  let ?f = "\<lambda>st. if Format st = 1 then [st]
                 else if Format st = 2 then
                   (case compact_class_pairs env cfg st of
                      Inl e \<Rightarrow> [] | Inr subtables \<Rightarrow> subtables)
                 else []"
  have 1: "compact_glyph_pairs cfg subtable = [subtable]" by (simp add: compact_glyph_pairs_def)
  have 2: "SubTable l = concat (map ?f (SubTable lookup))
          \<and> subseq (filter (\<lambda>st. Format st = 1) (SubTable lookup)) (SubTable l)
          \<and> (\<forall>st\<in>set (SubTable lookup). Format st = 1 \<longrightarrow> st \<in> set (SubTable l))"
    if ret: "compact_lookup env cfg lookup = Inr l" for l
  proof -
    from ret obtain out where loop: "compact_lookup_loop env cfg [] (SubTable lookup) = Inr out"
      and l: "l = lookup\<lparr>SubTable := out, SubTableCount := int (length out)\<rparr>"
      by (auto simp: compact_lookup_def split: sum.splits)
    have eq: "SubTable l = concat (map ?f (SubTable lookup))"
      using compact_lookup_loop_result [OF loop] l by simp
    have sub: "subseq (filter (\<lambda>st. Format st = 1) (SubTable lookup)) (SubTable l)"
      unfolding eq by (rule subseq_filter_concat) simp
    have "\<forall>st\<in>set (SubTable lookup). Format st = 1 \<longrightarrow> st \<in> set (SubTable l)"
    proof (intro ballI impI)
      fix st assume "st \<in> set (SubTable lookup)" "Format st = 1"
      then have "st \<in> set (filter (\<lambda>st. Format st = 1) (SubTable lookup))" by simp
      from list_emb_set [OF sub this] show "st \<in> set (SubTable l)" by blast
    qed
    with eq sub show ?thesis by blast
  qed
  have 3: "\<exists>l. compact_lookup env cfg lookup = Inr l"
    if "\<forall>st\<in>set (SubTable lookup). Format st = 2 \<longrightarrow> (\<exists>r. compact_class_pairs env cfg st = Inr r)"
    using compact_lookup_loop_returns [OF that, of "[]"] by (auto simp: compact_lookup_def)
  have 4: "subseq (filter (\<lambda>st. Format st = 1) (map ExtSubTable (SubTable ext_lookup)))
            (map ExtSubTable (SubTable l))
          \<and> (\<forall>e\<in>set (SubTable ext_lookup).
                Format (ExtSubTable e) = 1 \<longrightarrow> ExtSubTable e \<in> set (map ExtSubTable (SubTable l)))"
    if ret: "compact_ext_lookup env cfg ext_lookup = Inr l" for l
  proof -
    from ret obtain out where
      loop: "compact_ext_lookup_loop env cfg None [] (SubTable ext_lookup) = Inr out"
      and l: "l = ext_lookup\<lparr>SubTable := out, SubTableCount := int (length out)\<rparr>"
      by (auto simp: compact_ext_lookup_def split: sum.splits)
    from compact_ext_lookup_loop_subseq [OF loop]
    have sub: "subseq (filter (\<lambda>st. Format st = 1) (map ExtSubTable (SubTable ext_lookup)))
        (map ExtSubTable (SubTable l))"
      using l by simp
    have "\<forall>e\<in>set (SubTable ext_lookup).
        Format (ExtSubTable e) = 1 \<longrightarrow> ExtSubTable e \<in> set (map ExtSubTable (SubTable l))"
    proof (intro ballI impI)
      fix e assume "e \<in> set (SubTable ext_lookup)" "Format (ExtSubTable e) = 1"
      then have "ExtSubTable e
          \<in> set (filter (\<lambda>st. Format st = 1) (map ExtSubTable (SubTable ext_lookup)))"
        by simp
      from list_emb_set [OF sub this]
      show "ExtSubTable e \<in> set (map ExtSubTable (SubTable l))" by blast
    qed
    with sub show ?thesis by blast
  qed
  have 5: "(\<forall>st\<in>set (SubTable lookup). Format st = 1) \<longrightarrow>
        compact_lookup env cfg lookup =
          Inr (lookup\<lparr>SubTable := SubTable lookup,
                      SubTableCount := int (length (SubTable lookup))\<rparr>)"
    by (simp add: compact_lookup_def compact_lookup_loop_format1)
  have 6: "(\<forall>e\<in>set (SubTable ext_lookup). Format (ExtSubTable e) = 1) \<longrightarrow>
        (\<exists>l. compact_ext_lookup env cfg ext_lookup = Inr l
             \<and> map ExtSubTable (SubTable l) = map ExtSubTable (SubTable ext_lookup))"
    by (simp add: compact_ext_lookup_def compact_ext_lookup_loop_format1 wrap_extension_def
        comp_def)
  show ?thesis using 1 2 3 4 5 6 by blast
qed

lemma compact_max_example_subtable:
  "compact_class_pairs example_env (config_of ''max'') example_subtable =
     Inr [\<lparr>Format = 2, Coverage = [''a'', ''b''], ClassDef1 = [], ClassDef2 = [],
           Class1Record = [map snd (take 2 example_pairs)], PairSet = []\<rparr>,
          \<lparr>Format = 2, Coverage = [''c''], ClassDef1 = [], ClassDef2 = [],
           Class1Record = [map snd (drop 2 example_pairs)], PairSet = []\<rparr>]"
  by (simp add: compact_class_pairs_eq extract_example_subtable regroup_def config_of_def
      rows_example_pairs example_env_def simple_builder_def)
     (simp add: example_pairs_def)

theorem format1_pass_through_witness:
  "Format glyph_pair_subtable = 1 \<and> Format example_subtable = 2
   \<and> (\<exists>l. compact_lookup example_env (config_of ''max'')
              \<lparr>SubTable = [example_subtable, glyph_pair_subtable], SubTableCount = 2\<rparr> = Inr l
          \<and> length (SubTable l) = 3
          \<and> SubTable l ! 2 = glyph_pair_subtable
          \<and> glyph_pair_subtable \<in> set (SubTable l))
   \<and> (\<exists>l. compact_ext_lookup example_env (config_of ''max'')
              \<lparr>SubTable = [\<lparr>ExtFormat = 1, ExtensionLookupType = Some 2,
                             ExtSubTable = glyph_pair_subtable\<rparr>],
               SubTableCount = 1\<rparr> = Inr l
          \<and> map ExtSubTable (SubTable l) = [glyph_pair_subtable])"
proof -
  let ?lk = "\<lparr>SubTable = [example_subtable, glyph_pair_subtable], SubTableCount = 2\<rparr>"
  let ?ext = "\<lparr>SubTable = [\<lparr>ExtFormat = 1, ExtensionLookupType = Some 2,
                             ExtSubTable = glyph_pair_subtable\<rparr>], SubTableCount = 1\<rparr>"
  note t = format1_pass_through [of "config_of ''max''" glyph_pair_subtable example_env ?lk ?ext]
  have f1: "Format glyph_pair_subtable = 1" by (simp add: glyph_pair_subtable_def)
  have f2: "Format example_subtable = 2" by (simp add: example_subtable_def)
  have "\<forall>st\<in>set (SubTable ?lk).
      Format st = 2 \<longrightarrow> (\<exists>r. compact_class_pairs example_env (config_of ''max'') st = Inr r)"
    using f1 by (simp add: compact_max_example_subtable)
  then obtain l where l: "compact_lookup example_env (config_of ''max'') ?lk = Inr l"
    using t by blast
  then have eq: "SubTable l =
      concat (map (\<lambda>st. if Format st = 1 then [st]
                         else if Format st = 2 then
                           (case compact_class_pairs example_env (config_of ''max'') st of
                              Inl e \<Rightarrow> [] | Inr subtables \<Rightarrow> subtables)
                         else []) (SubTable ?lk))"
    using t by blast
  have a: "length (SubTable l) = 3 \<and> SubTable l ! 2 = glyph_pair_subtable
      \<and> glyph_pair_subtable \<in> set (SubTable l)"
    unfolding eq by (simp add: f1 f2 compact_max_example_subtable)
  have b: "\<exists>l. compact_ext_lookup example_env (config_of ''max'') ?ext = Inr l
          \<and> map ExtSubTable (SubTable l) = [glyph_pair_subtable]"
    using t f1 by simp
  show ?thesis using f1 f2 l a b by blast
qed

subsection \<open>Mass conservation\<close>

text \<open>
  Claim C2. For a pair matrix (a dictionary: its keys are distinct) and each of the modes
  "one", "max" and "auto", the groups that the regrouping returns hold, taken together,
  exactly the entries of the matrix: as multisets the concatenated groups and the matrix
  are equal, and no key occurs twice among the groups, so every entry lies in exactly one
  group and no group holds an entry that the matrix lacks. The modes "one" and "max"
  always return, as does "auto" below two classes; "auto" otherwise returns when the
  clustering does. The clustering library is taken to return one label per row, and
  \<^verbatim>\<open>list(set(...))\<close> to hold every element once.
\<close>

theorem mass_conservation:
  assumes d: "distinct (map fst pairs)"
    and m: "mode cfg = ''one'' \<or> mode cfg = ''max'' \<or> mode cfg = ''auto''"
    and es: "enumerates_sets env"
    and ol: "one_label_per_sample env"
  shows "(\<forall>groups. regroup env cfg n pairs = Inr groups \<longrightarrow>
            mset (concat groups) = mset pairs \<and> distinct (map fst (concat groups)))
       \<and> (mode cfg \<noteq> ''auto'' \<or> n < 2 \<longrightarrow> (\<exists>groups. regroup env cfg n pairs = Inr groups))"
proof (intro conjI allI impI)
  fix groups assume ret: "regroup env cfg n pairs = Inr groups"
  with d es ol show ms: "mset (concat groups) = mset pairs" by (rule regroup_conserves)
  then have "mset (map fst (concat groups)) = mset (map fst pairs)" by simp
  then show "distinct (map fst (concat groups))"
    using d mset_eq_imp_distinct_iff by blast
next
  assume a: "mode cfg \<noteq> ''auto'' \<or> n < 2"
  from m consider "mode cfg = ''one''" | "mode cfg = ''max''" | "mode cfg = ''auto''" by blast
  then show "\<exists>groups. regroup env cfg n pairs = Inr groups"
  proof cases
    case 1
    then show ?thesis by (simp only: regroup_one) blast
  next
    case 2
    then show ?thesis by (simp only: regroup_max) blast
  next
    case 3
    then have "n < 2" using a by simp
    then show ?thesis using 3 by (simp only: regroup_auto if_True) blast
  qed
qed

theorem mass_conservation_witness:
  "distinct (map fst example_pairs) \<and> enumerates_sets example_env
   \<and> one_label_per_sample example_env
   \<and> regroup example_env (config_of ''auto'') 2 example_pairs =
       Inr [take 2 example_pairs, drop 2 example_pairs]
   \<and> mset (concat [take 2 example_pairs, drop 2 example_pairs]) = mset example_pairs
   \<and> (\<exists>groups. regroup example_env (config_of ''max'') 2 example_pairs = Inr groups)"
proof -
  have a: "mode (config_of ''auto'') = ''one'' \<or> mode (config_of ''auto'') = ''max''
      \<or> mode (config_of ''auto'') = ''auto''"
    by (simp add: config_of_def)
  have m: "mode (config_of ''max'') = ''one'' \<or> mode (config_of ''max'') = ''max''
      \<or> mode (config_of ''max'') = ''auto''"
    by (simp add: config_of_def)
  have "mset (concat [take 2 example_pairs, drop 2 example_pairs]) = mset example_pairs"
    using mass_conservation [OF example_pairs_distinct a example_env_enumerates
        example_env_labels, of 2] regroup_auto_example
    by blast
  moreover have "\<exists>groups. regroup example_env (config_of ''max'') 2 example_pairs = Inr groups"
    using mass_conservation [OF example_pairs_distinct m example_env_enumerates
        example_env_labels, of 2]
    by (simp add: config_of_def)
  ultimately show ?thesis
    using example_pairs_distinct example_env_enumerates example_env_labels regroup_auto_example
    by blast
qed

subsection \<open>The "max" strategy\<close>

text \<open>
  Claim C6. Under the mode "max" the regrouping returns as many groups as the matrix has
  distinct class1 keys (first components of its keys), and all keys within one group have
  the same class1 glyph tuple. (This holds for the empty matrix too, with zero groups.)
\<close>

theorem max_strategy_partition:
  assumes d: "distinct (map fst pairs)" and m: "mode cfg = ''max''"
  shows "\<exists>groups. regroup env cfg n pairs = Inr groups
           \<and> length groups = card (fst ` fst ` set pairs)
           \<and> (\<forall>g\<in>set groups. \<forall>e\<in>set g. \<forall>e'\<in>set g. fst (fst e) = fst (fst e'))"
proof -
  let ?rows = "rows_by_class1 pairs"
  have inv: "rows_inv ?rows pairs" using d by (rule rows_by_class1_inv)
  have r: "regroup env cfg n pairs = Inr (map snd ?rows)" using m by (rule regroup_max)
  have len: "length (map snd ?rows) = card (fst ` fst ` set pairs)"
    using rows_inv_length [OF inv] by simp
  have same: "\<forall>g\<in>set (map snd ?rows). \<forall>e\<in>set g. \<forall>e'\<in>set g. fst (fst e) = fst (fst e')"
  proof (intro ballI)
    fix g e e' assume "g \<in> set (map snd ?rows)" and e: "e \<in> set g" "e' \<in> set g"
    then obtain r where r: "r \<in> set ?rows" "g = snd r" by auto
    then have "\<forall>x\<in>set (snd r). fst (fst x) = fst r" using inv unfolding rows_inv_def by blast
    then show "fst (fst e) = fst (fst e')" using e r by simp
  qed
  show ?thesis using r len same by blast
qed

theorem max_strategy_partition_witness:
  "distinct (map fst example_pairs) \<and> mode (config_of ''max'') = ''max''
   \<and> regroup example_env (config_of ''max'') 0 example_pairs =
       Inr [take 2 example_pairs, drop 2 example_pairs]
   \<and> card (fst ` fst ` set example_pairs) = 2"
proof -
  have m: "mode (config_of ''max'') = ''max''" by (simp add: config_of_def)
  have r: "regroup example_env (config_of ''max'') 0 example_pairs =
       Inr [take 2 example_pairs, drop 2 example_pairs]"
    by (simp add: regroup_max [OF m] rows_example_pairs)
  obtain groups where "regroup example_env (config_of ''max'') 0 example_pairs = Inr groups"
    and "length groups = card (fst ` fst ` set example_pairs)"
    using max_strategy_partition [OF example_pairs_distinct m, of example_env 0] by blast
  then have "card (fst ` fst ` set example_pairs) = 2" using r by auto
  then show ?thesis using example_pairs_distinct m r by blast
qed

subsection \<open>The number of output subtables\<close>

text \<open>
  Claim C5, as amended. When the extracted matrix is non-empty, every run of
  \<open>compact_class_pairs\<close> that returns yields at least one subtable. When it is empty, the
  mode "max" yields no subtable, but the mode "one", and "auto" below two class1 classes,
  still call the builder once, on the empty matrix, and yield the one subtable it builds.
  The code has no test for an empty matrix.
\<close>

theorem output_subtable_count:
  assumes m: "mode cfg = ''one'' \<or> mode cfg = ''max'' \<or> mode cfg = ''auto''"
    and es: "enumerates_sets env"
    and ol: "one_label_per_sample env"
  shows "(snd (extract_pairs subtable) \<noteq> [] \<longrightarrow>
           (\<forall>subtables. compact_class_pairs env cfg subtable = Inr subtables \<longrightarrow>
              1 \<le> length subtables))
       \<and> (snd (extract_pairs subtable) = [] \<and> mode cfg = ''max'' \<longrightarrow>
            compact_class_pairs env cfg subtable = Inr [])
       \<and> (snd (extract_pairs subtable) = []
            \<and> (mode cfg = ''one'' \<or> mode cfg = ''auto'' \<and> length (fst (extract_pairs subtable)) < 2) \<longrightarrow>
            compact_class_pairs env cfg subtable =
              (case buildPairPosClassesSubtable env [] of
                 Inl e \<Rightarrow> Inl e | Inr built \<Rightarrow> Inr [built]))"
proof (intro conjI allI impI)
  fix subtables
  assume ne: "snd (extract_pairs subtable) \<noteq> []"
    and ret: "compact_class_pairs env cfg subtable = Inr subtables"
  let ?pairs = "snd (extract_pairs subtable)"
  from ret obtain groups where
    g: "regroup env cfg (length (fst (extract_pairs subtable))) ?pairs = Inr groups"
    and b: "build_all (buildPairPosClassesSubtable env) groups = Inr subtables"
    unfolding compact_class_pairs_eq using sum_case_InrD by fastforce
  have "mset (concat groups) = mset ?pairs"
    using extract_pairs_distinct es ol g by (rule regroup_conserves)
  then have "groups \<noteq> []" using ne by auto
  moreover have "length subtables = length groups" using b by (rule build_all_length)
  ultimately show "1 \<le> length subtables" by (cases groups) simp_all
next
  assume "snd (extract_pairs subtable) = [] \<and> mode cfg = ''max''"
  then show "compact_class_pairs env cfg subtable = Inr []"
    by (simp add: compact_class_pairs_eq regroup_max rows_by_class1_def)
next
  assume a: "snd (extract_pairs subtable) = []
     \<and> (mode cfg = ''one'' \<or> mode cfg = ''auto'' \<and> length (fst (extract_pairs subtable)) < 2)"
  then have "regroup env cfg (length (fst (extract_pairs subtable))) (snd (extract_pairs subtable))
      = Inr [[]]"
    using regroup_one [of cfg env] regroup_auto [of cfg env] by auto
  then show "compact_class_pairs env cfg subtable =
      (case buildPairPosClassesSubtable env [] of Inl e \<Rightarrow> Inl e | Inr built \<Rightarrow> Inr [built])"
    by (simp add: compact_class_pairs_eq split: sum.splits)
qed

theorem output_subtable_count_witness:
  "enumerates_sets example_env \<and> one_label_per_sample example_env
   \<and> snd (extract_pairs example_subtable) = example_pairs
   \<and> (\<exists>subtables. compact_class_pairs example_env (config_of ''max'') example_subtable
          = Inr subtables \<and> 1 \<le> length subtables)
   \<and> snd (extract_pairs zero_subtable) = []
   \<and> compact_class_pairs example_env (config_of ''max'') zero_subtable = Inr []"
proof -
  have m: "mode (config_of ''max'') = ''one'' \<or> mode (config_of ''max'') = ''max''
      \<or> mode (config_of ''max'') = ''auto''"
    by (simp add: config_of_def)
  note t = output_subtable_count [OF m example_env_enumerates example_env_labels]
  have ne: "snd (extract_pairs example_subtable) \<noteq> []"
    by (simp add: extract_example_subtable example_pairs_def)
  have "\<exists>subtables. compact_class_pairs example_env (config_of ''max'') example_subtable
      = Inr subtables"
    by (simp add: compact_class_pairs_eq extract_example_subtable regroup_def config_of_def
        rows_example_pairs example_env_def simple_builder_def)
  then have 1: "\<exists>subtables. compact_class_pairs example_env (config_of ''max'') example_subtable
      = Inr subtables \<and> 1 \<le> length subtables"
    using t [of example_subtable] ne by blast
  have 2: "compact_class_pairs example_env (config_of ''max'') zero_subtable = Inr []"
    using t [of zero_subtable] by (simp add: extract_zero_subtable config_of_def)
  show ?thesis
    using 1 2 example_env_enumerates example_env_labels
    by (simp add: extract_example_subtable extract_zero_subtable)
qed

text \<open>
  The claim as stated fails: for a subtable whose cells are all zero the matrix is empty,
  and under "one" the output is one subtable, not none.
\<close>

theorem empty_matrix_one_subtable_counterexample:
  "snd (extract_pairs zero_subtable) = []
   \<and> compact_class_pairs example_env (config_of ''one'') zero_subtable =
       Inr [\<lparr>Format = 2, Coverage = [], ClassDef1 = [], ClassDef2 = [], Class1Record = [[]],
             PairSet = []\<rparr>]"
  by (simp add: compact_class_pairs_eq extract_zero_subtable regroup_def config_of_def
      example_env_def simple_builder_def)

subsection \<open>The zero test\<close>

text \<open>
  Claim C1, at a failing input. A value record with a zero x-advance and a device table
  on it is not semantically zero, yet \<open>is_really_zero\<close> accepts it, since its second
  test reads attributes named by single characters; a subtable whose only cell holds this
  record is extracted to the empty matrix, and the pair is lost from the output.
\<close>

theorem device_table_ignored_by_zero_test:
  "\<not> semantically_zero (Some zero_advance_with_device)
   \<and> is_really_zero (Some zero_advance_with_device)
   \<and> snd (extract_pairs device_subtable) = []
   \<and> compact_class_pairs example_env (config_of ''max'') device_subtable = Inr []"
  by (simp add: semantically_zero_def is_really_zero_def zero_advance_with_device_def
      getattr_def device_attrs_def extract_device_subtable compact_class_pairs_eq regroup_def
      config_of_def rows_by_class1_def)

subsection \<open>The guard of the "auto" strategy\<close>

text \<open>
  The guard of the "auto" branch counts the class1 classes of the subtable: below two,
  "auto" is "one".
\<close>

lemma auto_falls_back_below_two_classes:
  "mode cfg = ''auto'' \<Longrightarrow> length (fst (extract_pairs subtable)) < 2 \<Longrightarrow>
   compact_class_pairs env cfg subtable = compact_class_pairs env (cfg\<lparr>mode := ''one''\<rparr>) subtable"
  by (simp add: compact_class_pairs_eq regroup_auto regroup_one)

text \<open>
  Claim C3, at a failing input. The subtable \<open>one_row_subtable\<close> has two class1 classes,
  and the row of the second holds zeros only, so its matrix has a single class1 key. The
  guard \<^verbatim>\<open>len(classes1) < 2\<close> does not hold, and "auto" runs the clustering on one row,
  whatever the collaborators are; with a clustering that refuses a single sample the run
  ends in its error, while "one" returns one subtable.
\<close>

theorem auto_clusters_single_row:
  "map (\<lambda>(pair, values). fst pair) (snd (extract_pairs one_row_subtable)) = [[''a'']]
   \<and> length (fst (extract_pairs one_row_subtable)) = 2
   \<and> regroup env (config_of ''auto'') (length (fst (extract_pairs one_row_subtable)))
        (snd (extract_pairs one_row_subtable)) =
      cluster_pairs_by_class2_coverage env (snd (extract_pairs one_row_subtable)) []
   \<and> compact_class_pairs example_env (config_of ''auto'') one_row_subtable = Inl (LibraryError 0)
   \<and> compact_class_pairs example_env (config_of ''one'') one_row_subtable =
      Inr [\<lparr>Format = 2, Coverage = [''a''], ClassDef1 = [], ClassDef2 = [],
            Class1Record = [[(Some (advance (- 10)), None)]], PairSet = []\<rparr>]"
  by (simp add: compact_class_pairs_eq extract_one_row_subtable regroup_def config_of_def)
     (simp add: cluster_pairs_by_class2_coverage_def Let_def rows_by_class1_def row_step_def
      dd_getitem_def clustering_arguments_def setdefault_def example_env_def
      simple_fit_predict_def simple_builder_def)

subsection \<open>An unknown mode\<close>

lemma compact_class_pairs_bad:
  "mode cfg \<noteq> ''one'' \<Longrightarrow> mode cfg \<noteq> ''max'' \<Longrightarrow> mode cfg \<noteq> ''auto'' \<Longrightarrow>
   compact_class_pairs env cfg subtable = Inl (ValueError cfg)"
  by (simp add: compact_class_pairs_eq regroup_bad)

lemma compact_lookup_loop_bad:
  assumes "mode cfg \<noteq> ''one''" "mode cfg \<noteq> ''max''" "mode cfg \<noteq> ''auto''"
  shows "\<exists>st\<in>set sts. Format st = 2 \<Longrightarrow>
         compact_lookup_loop env cfg acc sts = Inl (ValueError cfg)"
proof (induction sts arbitrary: acc)
  case Nil
  then show ?case by simp
next
  case (Cons st sts)
  show ?case
  proof (cases "Format st = 2")
    case True
    then show ?thesis by (simp add: compact_class_pairs_bad [OF assms])
  next
    case False
    then have "\<exists>st\<in>set sts. Format st = 2" using Cons.prems by simp
    then have "\<And>acc. compact_lookup_loop env cfg acc sts = Inl (ValueError cfg)"
      by (rule Cons.IH)
    then show ?thesis using False by simp
  qed
qed

lemma compact_loop_stops:
  "list_all2 (\<lambda>a b. compact_one env cfg a = Inr b) pre pre' \<Longrightarrow>
   compact_one env cfg lk = Inl err \<Longrightarrow>
   compact_loop env cfg (pre @ lk # rest) = (Some err, pre' @ lk # rest)"
  by (induction pre pre' rule: list_all2_induct) simp_all

lemma compact_loop_no_error:
  "list_all2 (\<lambda>a b. compact_one env cfg a = Inr b) ttf ttf' \<Longrightarrow>
   compact_loop env cfg ttf = (None, ttf')"
  by (induction ttf ttf' rule: list_all2_induct) simp_all

lemma compact_lookup_loop_no_class:
  "\<forall>st\<in>set sts. Format st \<noteq> 2 \<Longrightarrow>
   compact_lookup_loop env cfg acc sts = Inr (acc @ filter (\<lambda>st. Format st = 1) sts)"
  by (induction sts arbitrary: acc) (simp_all add: compact_glyph_pairs_def)

lemma compact_ext_lookup_loop_bad:
  assumes "mode cfg \<noteq> ''one''" "mode cfg \<noteq> ''max''" "mode cfg \<noteq> ''auto''"
  shows "\<exists>e\<in>set es. Format (ExtSubTable e) = 2 \<Longrightarrow>
         compact_ext_lookup_loop env cfg (Some v) acc es = Inl (ValueError cfg)"
proof (induction es arbitrary: v acc)
  case Nil
  then show ?case by simp
next
  case (Cons e es)
  show ?case
  proof (cases "Format (ExtSubTable e) = 2")
    case True
    then show ?thesis by (simp add: compact_class_pairs_bad [OF assms])
  next
    case False
    then have "\<exists>e\<in>set es. Format (ExtSubTable e) = 2" using Cons.prems by simp
    then have "\<And>v acc. compact_ext_lookup_loop env cfg (Some v) acc es = Inl (ValueError cfg)"
      by (rule Cons.IH)
    then show ?thesis using False by simp
  qed
qed

lemma compact_ext_lookup_bad:
  assumes b: "mode cfg \<noteq> ''one''" "mode cfg \<noteq> ''max''" "mode cfg \<noteq> ''auto''"
    and h: "Format (ExtSubTable e) = 1 \<or> Format (ExtSubTable e) = 2"
    and ex: "\<exists>x\<in>set (e # es). Format (ExtSubTable x) = 2"
  shows "compact_ext_lookup_loop env cfg None [] (e # es) = Inl (ValueError cfg)"
proof (cases "Format (ExtSubTable e) = 2")
  case True
  then show ?thesis by (simp add: compact_class_pairs_bad [OF b])
next
  case False
  then have 1: "Format (ExtSubTable e) = 1" using h by simp
  have "\<exists>x\<in>set es. Format (ExtSubTable x) = 2" using ex False by simp
  then show ?thesis using 1 by (simp add: compact_ext_lookup_loop_bad [OF b])
qed

text \<open>
  Claim C7, as amended. With a mode other than "one", "max" and "auto",
  \<open>compact_class_pairs\<close> raises the \<open>ValueError\<close> for every class-based subtable, no
  strategy being applied. A pair-adjustment lookup that holds a class-based subtable raises
  it and is left as it was; so does an extension lookup of pair adjustments that wraps a
  class-based subtable and whose first wrapped subtable has format 1 or 2. \<open>compact\<close>
  ends at such a lookup with that error, provided the lookups before it were processed
  without an exception: the lookup and all later ones are unchanged, the earlier ones
  have been replaced by their results. The mode is tested nowhere else: a table of
  pair-adjustment lookups without class-based subtables and of lookups of other types is
  processed without an error, every pair-adjustment lookup keeping its format-1 subtables.
\<close>

theorem unknown_mode_raises_on_class_subtable:
  assumes "m \<noteq> ''one''" "m \<noteq> ''max''" "m \<noteq> ''auto''"
  shows "compact_class_pairs env \<lparr>mode = m, clustering_kwargs = kw\<rparr> subtable =
           Inl (ValueError \<lparr>mode = m, clustering_kwargs = kw\<rparr>)
       \<and> ((\<exists>st\<in>set (SubTable lookup). Format st = 2) \<longrightarrow>
            compact_lookup env \<lparr>mode = m, clustering_kwargs = kw\<rparr> lookup =
              Inl (ValueError \<lparr>mode = m, clustering_kwargs = kw\<rparr>)
            \<and> compact env (PairLookup lookup # rest) m kw =
              (Some (ValueError \<lparr>mode = m, clustering_kwargs = kw\<rparr>), PairLookup lookup # rest)
            \<and> (\<forall>pre pre'.
                  list_all2 (\<lambda>a b. compact_one env \<lparr>mode = m, clustering_kwargs = kw\<rparr> a = Inr b)
                    pre pre' \<longrightarrow>
                  compact env (pre @ PairLookup lookup # rest) m kw =
                    (Some (ValueError \<lparr>mode = m, clustering_kwargs = kw\<rparr>),
                     pre' @ PairLookup lookup # rest)))
       \<and> (ExtensionLookupType e = Some 2
            \<and> (Format (ExtSubTable e) = 1 \<or> Format (ExtSubTable e) = 2)
            \<and> (\<exists>x\<in>set (e # es). Format (ExtSubTable x) = 2) \<longrightarrow>
            (\<forall>pre pre'.
               list_all2 (\<lambda>a b. compact_one env \<lparr>mode = m, clustering_kwargs = kw\<rparr> a = Inr b)
                 pre pre' \<longrightarrow>
               compact env (pre @ ExtLookup \<lparr>SubTable = e # es, SubTableCount = c\<rparr> # rest) m kw =
                 (Some (ValueError \<lparr>mode = m, clustering_kwargs = kw\<rparr>),
                  pre' @ ExtLookup \<lparr>SubTable = e # es, SubTableCount = c\<rparr> # rest)))
       \<and> (list_all (\<lambda>lk. case lk of
                            PairLookup l \<Rightarrow> list_all (\<lambda>st. Format st \<noteq> 2) (SubTable l)
                          | ExtLookup l \<Rightarrow> False
                          | OtherLookup content \<Rightarrow> True) ttf \<longrightarrow>
            compact env ttf m kw =
              (None,
               map (\<lambda>lk. case lk of
                            PairLookup l \<Rightarrow>
                              PairLookup
                                (l\<lparr>SubTable := filter (\<lambda>st. Format st = 1) (SubTable l),
                                   SubTableCount :=
                                     int (length (filter (\<lambda>st. Format st = 1) (SubTable l)))\<rparr>)
                          | ExtLookup l \<Rightarrow> ExtLookup l
                          | OtherLookup content \<Rightarrow> OtherLookup content) ttf))"
proof -
  let ?cfg = "\<lparr>mode = m, clustering_kwargs = kw\<rparr>"
  have b: "mode ?cfg \<noteq> ''one''" "mode ?cfg \<noteq> ''max''" "mode ?cfg \<noteq> ''auto''"
    using assms by simp_all
  have 1: "compact_class_pairs env ?cfg subtable = Inl (ValueError ?cfg)"
    using b by (rule compact_class_pairs_bad)
  have 2: "compact_lookup env ?cfg lookup = Inl (ValueError ?cfg)"
    if "\<exists>st\<in>set (SubTable lookup). Format st = 2"
    using compact_lookup_loop_bad [OF b that, of env "[]"] by (simp add: compact_lookup_def)
  have one: "compact_one env ?cfg (PairLookup lookup) = Inl (ValueError ?cfg)"
    if "\<exists>st\<in>set (SubTable lookup). Format st = 2"
    using 2 [OF that] by simp
  have 3: "compact env (pre @ PairLookup lookup # rest) m kw
      = (Some (ValueError ?cfg), pre' @ PairLookup lookup # rest)"
    if "\<exists>st\<in>set (SubTable lookup). Format st = 2"
      and "list_all2 (\<lambda>a b. compact_one env ?cfg a = Inr b) pre pre'" for pre pre'
    unfolding compact_def using that(2) one [OF that(1)] by (rule compact_loop_stops)
  have first: "compact env (PairLookup lookup # rest) m kw
      = (Some (ValueError ?cfg), PairLookup lookup # rest)"
    if "\<exists>st\<in>set (SubTable lookup). Format st = 2"
    using 3 [OF that, of "[]" "[]"] by simp
  have ext: "compact_one env ?cfg (ExtLookup \<lparr>SubTable = e # es, SubTableCount = c\<rparr>)
      = Inl (ValueError ?cfg)"
    if "ExtensionLookupType e = Some 2"
      and "Format (ExtSubTable e) = 1 \<or> Format (ExtSubTable e) = 2"
      and "\<exists>x\<in>set (e # es). Format (ExtSubTable x) = 2"
    using compact_ext_lookup_bad [OF b that(2) that(3), of env] that(1)
    by (simp add: compact_ext_lookup_def)
  have 4: "compact env (pre @ ExtLookup \<lparr>SubTable = e # es, SubTableCount = c\<rparr> # rest) m kw
      = (Some (ValueError ?cfg), pre' @ ExtLookup \<lparr>SubTable = e # es, SubTableCount = c\<rparr> # rest)"
    if "ExtensionLookupType e = Some 2"
      and "Format (ExtSubTable e) = 1 \<or> Format (ExtSubTable e) = 2"
      and "\<exists>x\<in>set (e # es). Format (ExtSubTable x) = 2"
      and "list_all2 (\<lambda>a b. compact_one env ?cfg a = Inr b) pre pre'" for pre pre'
    unfolding compact_def using that(4) ext [OF that(1) that(2) that(3)]
    by (rule compact_loop_stops)
  let ?ok = "\<lambda>lk. case lk of
                    PairLookup l \<Rightarrow> list_all (\<lambda>st. Format st \<noteq> 2) (SubTable l)
                  | ExtLookup l \<Rightarrow> False
                  | OtherLookup content \<Rightarrow> True"
  let ?new = "\<lambda>lk. case lk of
                    PairLookup l \<Rightarrow>
                      PairLookup
                        (l\<lparr>SubTable := filter (\<lambda>st. Format st = 1) (SubTable l),
                           SubTableCount :=
                             int (length (filter (\<lambda>st. Format st = 1) (SubTable l)))\<rparr>)
                  | ExtLookup l \<Rightarrow> ExtLookup l
                  | OtherLookup content \<Rightarrow> OtherLookup content"
  have 5: "compact env ttf m kw = (None, map ?new ttf)" if ok: "list_all ?ok ttf"
  proof -
    have each: "compact_one env ?cfg lk = Inr (?new lk)" if "?ok lk" for lk
    proof (cases lk)
      case (PairLookup l)
      then have "\<forall>st\<in>set (SubTable l). Format st \<noteq> 2"
        using that by (simp add: list_all_iff)
      then show ?thesis
        by (simp add: PairLookup compact_lookup_def compact_lookup_loop_no_class)
    next
      case (ExtLookup l)
      then show ?thesis using that by simp
    next
      case (OtherLookup content)
      then show ?thesis by simp
    qed
    have "list_all2 (\<lambda>a b. compact_one env ?cfg a = Inr b) ttf (map ?new ttf)"
      using ok each by (simp add: list_all2_conv_all_nth list_all_length)
    then show ?thesis unfolding compact_def by (rule compact_loop_no_error)
  qed
  show ?thesis using 1 2 3 first 4 5 by blast
qed

theorem unknown_mode_raises_on_class_subtable_witness:
  "compact example_env
     [PairLookup \<lparr>SubTable = [glyph_pair_subtable], SubTableCount = 1\<rparr>,
      PairLookup \<lparr>SubTable = [glyph_pair_subtable, example_subtable], SubTableCount = 2\<rparr>,
      OtherLookup 0]
     ''bogus'' [] =
   (Some (ValueError \<lparr>mode = ''bogus'', clustering_kwargs = []\<rparr>),
    [PairLookup \<lparr>SubTable = [glyph_pair_subtable], SubTableCount = 1\<rparr>,
     PairLookup \<lparr>SubTable = [glyph_pair_subtable, example_subtable], SubTableCount = 2\<rparr>,
     OtherLookup 0])"
proof -
  have f1: "Format glyph_pair_subtable = 1" by (simp add: glyph_pair_subtable_def)
  have f2: "Format example_subtable = 2" by (simp add: example_subtable_def)
  have pre: "list_all2
      (\<lambda>a b. compact_one example_env \<lparr>mode = ''bogus'', clustering_kwargs = []\<rparr> a = Inr b)
      [PairLookup \<lparr>SubTable = [glyph_pair_subtable], SubTableCount = 1\<rparr>]
      [PairLookup \<lparr>SubTable = [glyph_pair_subtable], SubTableCount = 1\<rparr>]"
    by (simp add: compact_lookup_def compact_glyph_pairs_def f1)
  have ex: "\<exists>st\<in>set (SubTable
      \<lparr>SubTable = [glyph_pair_subtable, example_subtable], SubTableCount = 2\<rparr>). Format st = 2"
    by (simp add: f2)
  have n: "''bogus'' \<noteq> ''one''" "''bogus'' \<noteq> ''max''" "''bogus'' \<noteq> ''auto''"
    by simp_all
  note t = unknown_mode_raises_on_class_subtable [OF n, where env = example_env and kw = "[]"
      and lookup = "\<lparr>SubTable = [glyph_pair_subtable, example_subtable], SubTableCount = 2\<rparr>"
      and rest = "[OtherLookup 0]"]
  from t ex have "\<forall>pre pre'.
      list_all2
        (\<lambda>a b. compact_one example_env \<lparr>mode = ''bogus'', clustering_kwargs = []\<rparr> a = Inr b)
        pre pre' \<longrightarrow>
      compact example_env
        (pre @ PairLookup \<lparr>SubTable = [glyph_pair_subtable, example_subtable],
                            SubTableCount = 2\<rparr> # [OtherLookup 0]) ''bogus'' [] =
        (Some (ValueError \<lparr>mode = ''bogus'', clustering_kwargs = []\<rparr>),
         pre' @ PairLookup \<lparr>SubTable = [glyph_pair_subtable, example_subtable],
                             SubTableCount = 2\<rparr> # [OtherLookup 0])"
    by blast
  with pre have "compact example_env
        ([PairLookup \<lparr>SubTable = [glyph_pair_subtable], SubTableCount = 1\<rparr>]
         @ PairLookup \<lparr>SubTable = [glyph_pair_subtable, example_subtable],
                       SubTableCount = 2\<rparr> # [OtherLookup 0]) ''bogus'' [] =
        (Some (ValueError \<lparr>mode = ''bogus'', clustering_kwargs = []\<rparr>),
         [PairLookup \<lparr>SubTable = [glyph_pair_subtable], SubTableCount = 1\<rparr>]
         @ PairLookup \<lparr>SubTable = [glyph_pair_subtable, example_subtable],
                       SubTableCount = 2\<rparr> # [OtherLookup 0])"
    by blast
  then show ?thesis by simp
qed

text \<open>
  The claim as stated fails in two ways. On a table without a class-based subtable,
  \<open>compact\<close> with an unknown mode returns without an error. And when the error comes, the
  table may have been changed before: the lookups in front of the failing one have been
  rewritten, here an extension lookup whose subtables are new wrappers without the
  \<^verbatim>\<open>ExtensionLookupType\<close> attribute, and a pair-adjustment lookup that has lost its
  format-3 subtable.
\<close>

theorem unknown_mode_counterexample:
  "compact example_env
     [PairLookup \<lparr>SubTable = [glyph_pair_subtable], SubTableCount = 1\<rparr>, OtherLookup 0]
     ''bogus'' [] =
   (None, [PairLookup \<lparr>SubTable = [glyph_pair_subtable], SubTableCount = 1\<rparr>, OtherLookup 0])
   \<and> compact example_env
     [ExtLookup \<lparr>SubTable = [\<lparr>ExtFormat = 1, ExtensionLookupType = Some 2,
                               ExtSubTable = glyph_pair_subtable\<rparr>], SubTableCount = 1\<rparr>,
      PairLookup \<lparr>SubTable = [example_subtable], SubTableCount = 1\<rparr>]
     ''bogus'' [] =
   (Some (ValueError \<lparr>mode = ''bogus'', clustering_kwargs = []\<rparr>),
    [ExtLookup \<lparr>SubTable = [\<lparr>ExtFormat = 1, ExtensionLookupType = None,
                              ExtSubTable = glyph_pair_subtable\<rparr>], SubTableCount = 1\<rparr>,
     PairLookup \<lparr>SubTable = [example_subtable], SubTableCount = 1\<rparr>])
   \<and> compact example_env
     [PairLookup \<lparr>SubTable = [glyph_pair_subtable, format3_subtable], SubTableCount = 2\<rparr>,
      PairLookup \<lparr>SubTable = [example_subtable], SubTableCount = 1\<rparr>]
     ''bogus'' [] =
   (Some (ValueError \<lparr>mode = ''bogus'', clustering_kwargs = []\<rparr>),
    [PairLookup \<lparr>SubTable = [glyph_pair_subtable], SubTableCount = 1\<rparr>,
     PairLookup \<lparr>SubTable = [example_subtable], SubTableCount = 1\<rparr>])"
proof -
  have f1: "Format glyph_pair_subtable = 1" by (simp add: glyph_pair_subtable_def)
  have f2: "Format example_subtable = 2" by (simp add: example_subtable_def)
  have f3: "Format format3_subtable = 3" by (simp add: format3_subtable_def)
  have bad: "compact_class_pairs example_env \<lparr>mode = ''bogus'', clustering_kwargs = []\<rparr>
      example_subtable = Inl (ValueError \<lparr>mode = ''bogus'', clustering_kwargs = []\<rparr>)"
    by (rule compact_class_pairs_bad) simp_all
  show ?thesis
    by (simp add: compact_def compact_lookup_def compact_ext_lookup_def compact_glyph_pairs_def
        wrap_extension_def f1 f2 f3 bad)
qed

subsection \<open>The cluster count\<close>





subsection \<open>Subtables of an unknown format\<close>

text \<open>
  In a pair-adjustment lookup a subtable of a format other than 1 and 2 adds nothing to
  the new list, and both adapters set the count to the length of the new list.
\<close>

lemma compact_lookup_loop_other_format:
  "Format st \<noteq> 1 \<Longrightarrow> Format st \<noteq> 2 \<Longrightarrow>
   compact_lookup_loop env cfg acc (st # rest) = compact_lookup_loop env cfg acc rest"
  by simp

lemma compact_lookup_count:
  "compact_lookup env cfg lookup = Inr l \<Longrightarrow> SubTableCount l = int (length (SubTable l))"
  by (auto simp: compact_lookup_def split: sum.splits)

lemma compact_ext_lookup_count:
  "compact_ext_lookup env cfg lookup = Inr l \<Longrightarrow> SubTableCount l = int (length (SubTable l))"
  by (auto simp: compact_ext_lookup_def split: sum.splits)

text \<open>
  Claim C10, at a failing input. In an extension lookup a wrapped subtable of format 3
  is not dropped: after a format-1 subtable the loop wraps that subtable's result a second
  time, and as the first subtable it ends the run with \<open>UnboundLocalError\<close>. The same two
  subtables in a pair-adjustment lookup give the format-1 subtable alone.
\<close>

theorem ext_lookup_repeats_for_unknown_format:
  "compact_ext_lookup example_env (config_of ''one'')
     \<lparr>SubTable = [\<lparr>ExtFormat = 1, ExtensionLookupType = Some 2, ExtSubTable = glyph_pair_subtable\<rparr>,
                  \<lparr>ExtFormat = 1, ExtensionLookupType = Some 2, ExtSubTable = format3_subtable\<rparr>],
      SubTableCount = 2\<rparr> =
   Inr \<lparr>SubTable = [wrap_extension glyph_pair_subtable, wrap_extension glyph_pair_subtable],
        SubTableCount = 2\<rparr>
   \<and> compact_ext_lookup example_env (config_of ''one'')
     \<lparr>SubTable = [\<lparr>ExtFormat = 1, ExtensionLookupType = Some 2, ExtSubTable = format3_subtable\<rparr>],
      SubTableCount = 1\<rparr> = Inl UnboundLocalError
   \<and> compact_lookup example_env (config_of ''one'')
     \<lparr>SubTable = [glyph_pair_subtable, format3_subtable], SubTableCount = 2\<rparr> =
   Inr \<lparr>SubTable = [glyph_pair_subtable], SubTableCount = 1\<rparr>"
  by (simp add: compact_ext_lookup_def compact_lookup_def compact_glyph_pairs_def
      glyph_pair_subtable_def format3_subtable_def)

end
